theory Spec2Isabelle
  imports Complex_Main
begin

section \<open>Python values and errors\<close>

text \<open>
  Floating-point numbers of the program are modelled as real numbers: rounding,
  infinities and NaN are outside the model. The one exception is the ratio that the
  network planner compares, which is the double its division computes. Every exception
  the modelled code can raise is a value \<open>Inl e\<close> of a sum type.
\<close>

datatype py_error =
  ValueError | ZeroDivisionError | IndexError | KeyError | OverflowError | TypeError

text \<open>\<open>math.sqrt\<close> raises \<open>ValueError\<close> on a negative argument.\<close>

definition py_sqrt :: "real \<Rightarrow> py_error + real" where
  "py_sqrt x = (if x < 0 then Inl ValueError else Inr (sqrt x))"

text \<open>\<open>math.log10\<close> raises \<open>ValueError\<close> unless its argument is positive.\<close>

definition py_log10 :: "real \<Rightarrow> py_error + real" where
  "py_log10 x = (if x \<le> 0 then Inl ValueError else Inr (log 10 x))"

text \<open>\<open>int(x)\<close> on a float truncates towards zero.\<close>

definition py_int :: "real \<Rightarrow> int" where
  "py_int x = (if 0 \<le> x then \<lfloor>x\<rfloor> else \<lceil>x\<rceil>)"

definition radians :: "real \<Rightarrow> real" where
  "radians d = d * pi / 180"

text \<open>\<open>math.atan2 y x\<close>, the angle of the point \<open>(x, y)\<close> in \<open>(-pi, pi]\<close>.\<close>

definition atan2 :: "real \<Rightarrow> real \<Rightarrow> real" where
  "atan2 y x =
     (if 0 < x then arctan (y / x)
      else if x < 0 \<and> 0 \<le> y then arctan (y / x) + pi
      else if x < 0 then arctan (y / x) - pi
      else if 0 < y then pi / 2
      else if y < 0 then - (pi / 2)
      else 0)"

text \<open>
  \<open>numpy.linspace start stop num\<close> with the end point included: \<open>num\<close> evenly
  spaced samples, the single sample \<open>start\<close> when \<open>num = 1\<close>.
\<close>

definition linspace :: "real \<Rightarrow> real \<Rightarrow> nat \<Rightarrow> real list" where
  "linspace start stop num =
     (if num = 1 then [start]
      else map (\<lambda>i. start + real i * ((stop - start) / real (num - 1))) [0..<num])"

section \<open>rf\_physics.py\<close>

definition EARTH_RADIUS_KM :: real where
  "EARTH_RADIUS_KM = 6371"

text \<open>
  The two square roots of \<open>haversine_distance\<close> raise on a negative argument. Over the
  reals \<open>a\<close> lies between 0 and 1; in floating point it can exceed 1 by rounding for
  nearly antipodal points, where \<open>math.sqrt(1 - a)\<close> raises. The model keeps both
  branches; the claims below take the returned distance or result as a hypothesis and
  do not say for which end points the call returns.
\<close>

definition haversine_distance :: "real \<Rightarrow> real \<Rightarrow> real \<Rightarrow> real \<Rightarrow> py_error + real" where
  "haversine_distance lat1 lon1 lat2 lon2 =
     (let R = EARTH_RADIUS_KM * 1000;
          phi1 = radians lat1;
          phi2 = radians lat2;
          dphi = radians (lat2 - lat1);
          dlambda = radians (lon2 - lon1);
          a = (sin (dphi / 2))\<^sup>2 + cos phi1 * cos phi2 * (sin (dlambda / 2))\<^sup>2
      in case py_sqrt a of
           Inl e \<Rightarrow> Inl e
         | Inr sa \<Rightarrow>
             (case py_sqrt (1 - a) of
                Inl e \<Rightarrow> Inl e
              | Inr sb \<Rightarrow> Inr (R * (2 * atan2 sa sb))))"

text \<open>
  The tile manager enters the link analysis only through \<open>get_elevation\<close>; it is the
  parameter \<open>get_elevation :: real \<Rightarrow> real \<Rightarrow> real\<close> (latitude, longitude) below, the
  elevation of the terrain at a point. A lookup that raises is outside this parameter.
  \<open>step_meters\<close> is the default argument 30 of the source.
\<close>

definition step_meters :: real where
  "step_meters = 30"

definition generate_profile ::
  "(real \<Rightarrow> real \<Rightarrow> real) \<Rightarrow> real \<Rightarrow> real \<Rightarrow> real \<Rightarrow> real \<Rightarrow> py_error + (real list \<times> real)" where
  "generate_profile get_elevation lat1 lon1 lat2 lon2 =
     (case haversine_distance lat1 lon1 lat2 lon2 of
        Inl e \<Rightarrow> Inl e
      | Inr dist_m \<Rightarrow>
          if dist_m = 0 then Inr ([get_elevation lat1 lon1], 0)
          else
            (let num_points = nat (max 2 (py_int (dist_m / step_meters)));
                 lats = linspace lat1 lat2 num_points;
                 lons = linspace lon1 lon2 num_points;
                 elevations = map (\<lambda>(lat, lon). get_elevation lat lon) (zip lats lons)
             in Inr (elevations, dist_m)))"

text \<open>
  The two divisions of \<open>calculate_fresnel_zone\<close> and its square root are the places
  where it can raise. \<open>analyze_link\<close> calls it only at samples at least 1 m from both
  end points, where \<open>dist_m\<close> is at least 2.
\<close>

definition calculate_fresnel_zone :: "real \<Rightarrow> real \<Rightarrow> real \<Rightarrow> real \<Rightarrow> py_error + real" where
  "calculate_fresnel_zone dist_m freq_mhz p_d1 p_d2 =
     (let c = 299792000 in
      if freq_mhz * 1000000 = 0 then Inl ZeroDivisionError
      else
        (let wavelength = c / (freq_mhz * 1000000) in
         if dist_m = 0 then Inl ZeroDivisionError
         else py_sqrt ((1 * wavelength * p_d1 * p_d2) / dist_m)))"

datatype link_status = Viable | Degraded | Blocked

record link_result =
  dist_km :: real
  status :: link_status
  min_clearance_ratio :: real
  path_loss_db :: real
  profile :: "real list"

text \<open>The variables the clearance loop of \<open>analyze_link\<close> updates.\<close>

record loop_state =
  fresnel_radii :: "real list"
  min_ratio :: real
  worst_point_idx :: int

text \<open>
  The loop \<open>for i in range(num_points)\<close>, as a recursion over the indices still to
  visit. Every index is below the length of \<open>dists\<close> and \<open>clearance\<close>, which both have
  \<open>num_points\<close> elements.
\<close>

fun clearance_loop ::
  "real \<Rightarrow> real \<Rightarrow> real list \<Rightarrow> real list \<Rightarrow> nat list \<Rightarrow> loop_state \<Rightarrow> py_error + loop_state" where
  "clearance_loop dist_m freq_mhz dists clearance [] st = Inr st"
| "clearance_loop dist_m freq_mhz dists clearance (i # rest) st =
     (let d1 = dists ! i;
          d2 = dist_m - d1
      in if d1 < 1 \<or> d2 < 1
         then clearance_loop dist_m freq_mhz dists clearance rest
                (st\<lparr>fresnel_radii := fresnel_radii st @ [0.1]\<rparr>)
         else
           (case calculate_fresnel_zone dist_m freq_mhz d1 d2 of
              Inl e \<Rightarrow> Inl e
            | Inr f1 \<Rightarrow>
                (let ratio = clearance ! i / f1;
                     st1 = st\<lparr>fresnel_radii := fresnel_radii st @ [f1]\<rparr>
                 in if ratio < min_ratio st1
                    then clearance_loop dist_m freq_mhz dists clearance rest
                           (st1\<lparr>min_ratio := ratio, worst_point_idx := int i\<rparr>)
                    else clearance_loop dist_m freq_mhz dists clearance rest st1)))"

definition classify :: "real \<Rightarrow> link_status" where
  "classify m = (if m < 0 then Blocked else if m < 0.6 then Degraded else Viable)"

text \<open>The body of \<open>analyze_link\<close> after the profile has been generated.\<close>

definition analyze_profile ::
  "real list \<Rightarrow> real \<Rightarrow> real \<Rightarrow> real \<Rightarrow> real \<Rightarrow> py_error + link_result" where
  "analyze_profile elevs dist_m freq_mhz tx_h rx_h =
     (if elevs = [] then Inl IndexError
      else
        (let num_points = length elevs;
             dists = linspace 0 dist_m num_points;
             k = 1.333;
             R_eff = k * EARTH_RADIUS_KM * 1000;
             bulge = map (\<lambda>d. (d * (dist_m - d)) / (2 * R_eff)) dists;
             terrain_h = map2 (+) elevs bulge;
             tx_alt = elevs ! 0 + tx_h;
             rx_alt = last elevs + rx_h;
             los_h = linspace tx_alt rx_alt num_points;
             clearance = map2 (-) los_h terrain_h
         in case clearance_loop dist_m freq_mhz dists clearance [0..<num_points]
                   \<lparr>fresnel_radii = [], min_ratio = 100, worst_point_idx = - 1\<rparr> of
              Inl e \<Rightarrow> Inl e
            | Inr st \<Rightarrow>
                Inr \<lparr>dist_km = dist_m / 1000,
                     status = classify (min_ratio st),
                     min_clearance_ratio = min_ratio st,
                     path_loss_db = 0,
                     profile = elevs\<rparr>))"

definition analyze_link ::
  "(real \<Rightarrow> real \<Rightarrow> real) \<Rightarrow> real \<Rightarrow> real \<Rightarrow> real \<Rightarrow> real \<Rightarrow> real \<Rightarrow> real \<Rightarrow> real
     \<Rightarrow> py_error + link_result" where
  "analyze_link get_elevation lat1 lon1 lat2 lon2 freq_mhz tx_h rx_h =
     (case generate_profile get_elevation lat1 lon1 lat2 lon2 of
        Inl e \<Rightarrow> Inl e
      | Inr (elevs, dist_m) \<Rightarrow> analyze_profile elevs dist_m freq_mhz tx_h rx_h)"

text \<open>
  \<open>calculate_itm_loss\<close>: the import attempt has no effect on the result; the
  arguments \<open>elevs\<close>, \<open>tx_h\<close> and \<open>rx_h\<close> are unused by the source.
\<close>

definition calculate_itm_loss ::
  "real \<Rightarrow> real list \<Rightarrow> real \<Rightarrow> real \<Rightarrow> real \<Rightarrow> py_error + real" where
  "calculate_itm_loss dist_m elevs freq_mhz tx_h rx_h =
     (let dist_km = dist_m / 1000 in
      if dist_km < 0.001 then Inr 0
      else
        (case py_log10 dist_km of
           Inl e \<Rightarrow> Inl e
         | Inr l1 \<Rightarrow>
             (case py_log10 freq_mhz of
                Inl e \<Rightarrow> Inl e
              | Inr l2 \<Rightarrow> Inr (20 * l1 + 20 * l2 + 32.44))))"


subsection \<open>The clearance ratios of a profile\<close>

text \<open>
  The quantities the claims about \<open>analyze_link\<close> speak of, written with the
  expressions of the source: the first Fresnel radius at a sample \<open>d1\<close> metres from
  the transmitter, the samples at which the loop computes a ratio (those at least
  1 m from both end points), and the list of the ratios it computes there.
\<close>

definition fresnel_radius :: "real \<Rightarrow> real \<Rightarrow> real \<Rightarrow> real" where
  "fresnel_radius dist_m freq_mhz d1 =
     sqrt ((1 * (299792000 / (freq_mhz * 1000000)) * d1 * (dist_m - d1)) / dist_m)"

definition interior :: "real \<Rightarrow> real \<Rightarrow> bool" where
  "interior dist_m d1 \<longleftrightarrow> \<not> (d1 < 1 \<or> dist_m - d1 < 1)"

definition loop_ratios ::
  "real \<Rightarrow> real \<Rightarrow> real list \<Rightarrow> real list \<Rightarrow> nat list \<Rightarrow> real list" where
  "loop_ratios dist_m freq_mhz dists clearance idxs =
     map (\<lambda>i. clearance ! i / fresnel_radius dist_m freq_mhz (dists ! i))
       (filter (\<lambda>i. interior dist_m (dists ! i)) idxs)"

definition link_clearance :: "real list \<Rightarrow> real \<Rightarrow> real \<Rightarrow> real \<Rightarrow> real list" where
  "link_clearance elevs dist_m tx_h rx_h =
     (let num_points = length elevs;
          dists = linspace 0 dist_m num_points;
          k = 1.333;
          R_eff = k * EARTH_RADIUS_KM * 1000;
          bulge = map (\<lambda>d. (d * (dist_m - d)) / (2 * R_eff)) dists;
          terrain_h = map2 (+) elevs bulge;
          tx_alt = elevs ! 0 + tx_h;
          rx_alt = last elevs + rx_h;
          los_h = linspace tx_alt rx_alt num_points
      in map2 (-) los_h terrain_h)"

definition clearance_ratios :: "real list \<Rightarrow> real \<Rightarrow> real \<Rightarrow> real \<Rightarrow> real \<Rightarrow> real list" where
  "clearance_ratios elevs dist_m freq_mhz tx_h rx_h =
     loop_ratios dist_m freq_mhz (linspace 0 dist_m (length elevs))
       (link_clearance elevs dist_m tx_h rx_h) [0..<length elevs]"

definition link_ratios ::
  "(real \<Rightarrow> real \<Rightarrow> real) \<Rightarrow> real \<Rightarrow> real \<Rightarrow> real \<Rightarrow> real \<Rightarrow> real \<Rightarrow> real \<Rightarrow> real \<Rightarrow> real list" where
  "link_ratios get_elevation lat1 lon1 lat2 lon2 freq_mhz tx_h rx_h =
     (case generate_profile get_elevation lat1 lon1 lat2 lon2 of
        Inl e \<Rightarrow> []
      | Inr (elevs, dist_m) \<Rightarrow> clearance_ratios elevs dist_m freq_mhz tx_h rx_h)"

section \<open>Facts about the link analysis\<close>

subsection \<open>Bounds on pi and the distance along the equator\<close>

lemma pi_ge_3: "3 \<le> pi"
proof -
  have "sin (pi / 6) \<le> pi / 6" by (rule sin_x_le_x) simp
  then show ?thesis by (simp add: sin_30)
qed

lemma arctan_le_arg:
  fixes x :: real
  assumes "0 \<le> x"
  shows "arctan x \<le> x"
proof -
  have "0 - arctan 0 \<le> x - arctan x"
  proof (rule DERIV_nonneg_imp_nondecreasing [OF assms, where f = "\<lambda>t. t - arctan t"])
    fix u :: real
    have d: "((\<lambda>t. t - arctan t) has_real_derivative 1 - inverse (1 + u\<^sup>2)) (at u)"
      by (auto intro!: derivative_eq_intros simp: field_simps)
    have "inverse (1 + u\<^sup>2) \<le> 1"
      by (simp add: inverse_le_1_iff)
    then have "0 \<le> 1 - inverse (1 + u\<^sup>2)" by simp
    with d show "\<exists>y. ((\<lambda>t. t - arctan t) has_real_derivative y) (at u) \<and> 0 \<le> y"
      by blast
  qed
  then show ?thesis by simp
qed

lemma pi_le_32: "pi \<le> 3.2"
proof -
  have "arctan (1 / 5) \<le> (1 / 5 :: real)" by (rule arctan_le_arg) simp
  moreover have "0 \<le> arctan (1 / 239 :: real)" by simp
  ultimately have "pi / 4 \<le> 4 / 5" using machin by linarith
  then show ?thesis by simp
qed

lemma haversine_equator:
  assumes "0 \<le> lon" "lon < 180"
  shows "haversine_distance 0 0 0 lon = Inr (6371000 * (lon * pi / 180))"
proof -
  define x where "x = lon * pi / 360"
  have x0: "0 \<le> x" using assms by (simp add: x_def)
  have "lon * pi < 180 * pi" using assms by simp
  then have x1: "x < pi / 2" by (simp add: x_def)
  have c: "0 < cos x" using x0 x1 by (intro cos_gt_zero_pi) auto
  have s: "0 \<le> sin x" using x0 x1 by (intro sin_ge_zero) auto
  have a: "1 - (sin x)\<^sup>2 = (cos x)\<^sup>2" by (simp add: cos_squared_eq)
  have t: "arctan (sin x / cos x) = x"
    using arctan_tan[of x] x0 x1 by (simp add: tan_def)
  have r: "radians lon / 2 = x" by (simp add: radians_def x_def)
  have "haversine_distance 0 0 0 lon = Inr (6371000 * (2 * x))"
    using c s t a
    by (simp add: haversine_distance_def r py_sqrt_def atan2_def EARTH_RADIUS_KM_def
        Let_def radians_def[of 0])
  then show ?thesis by (simp add: x_def)
qed

subsection \<open>Profiles of two samples\<close>

lemma linspace_two: "linspace a b (Suc (Suc 0)) = [a, b]"
  by (simp add: linspace_def upt_rec)

lemma linspace_two_num: "linspace a b 2 = [a, b]"
  using linspace_two[of a b] by (simp add: numeral_2_eq_2)

lemma num_points_short:
  assumes "0 < d" "d < 90"
  shows "nat (max 2 (py_int (d / step_meters))) = Suc (Suc 0)"
proof -
  have "d / 30 < 3" using assms by simp
  then have "\<lfloor>d / 30\<rfloor> < 3" by (simp add: floor_less_iff)
  then have "max 2 \<lfloor>d / 30\<rfloor> = 2" by simp
  then show ?thesis using assms by (simp add: py_int_def step_meters_def)
qed

lemma generate_profile_short:
  assumes "haversine_distance lat1 lon1 lat2 lon2 = Inr d" "0 < d" "d < 90"
  shows "generate_profile ge lat1 lon1 lat2 lon2 = Inr ([ge lat1 lon1, ge lat2 lon2], d)"
  using assms num_points_short[OF assms(2,3)]
  by (simp add: generate_profile_def linspace_two linspace_two_num Let_def)

lemma analyze_profile_two:
  "analyze_profile [e1, e2] d f tx rx =
     Inr \<lparr>dist_km = d / 1000, status = Viable, min_clearance_ratio = 100,
          path_loss_db = 0, profile = [e1, e2]\<rparr>"
  by (simp add: analyze_profile_def linspace_two Let_def classify_def upt_rec)

lemma clearance_ratios_two: "clearance_ratios [e1, e2] d f tx rx = []"
  by (simp add: clearance_ratios_def loop_ratios_def interior_def linspace_two upt_rec)

subsection \<open>The clearance loop\<close>

lemma calculate_fresnel_zone_Inr:
  "calculate_fresnel_zone D f d1 (D - d1) = Inr f1 \<Longrightarrow> f1 = fresnel_radius D f d1"
  by (auto simp: calculate_fresnel_zone_def fresnel_radius_def py_sqrt_def Let_def split: if_splits)

lemma calculate_fresnel_zone_pos:
  assumes "0 < f" "1 \<le> d1" "1 \<le> D - d1"
  shows "calculate_fresnel_zone D f d1 (D - d1) = Inr (fresnel_radius D f d1)"
    and "0 < fresnel_radius D f d1"
proof -
  have D: "0 < D" using assms by linarith
  have "0 < 299792000 / (f * 1000000) * d1 * (D - d1) / D"
    using assms D by (intro divide_pos_pos mult_pos_pos) auto
  then have p: "0 < (1 * (299792000 / (f * 1000000)) * d1 * (D - d1)) / D" by simp
  then show "0 < fresnel_radius D f d1"
    unfolding fresnel_radius_def by (simp only: real_sqrt_gt_0_iff)
  from p have "\<not> (1 * (299792000 / (f * 1000000)) * d1 * (D - d1)) / D < 0" by linarith
  then show "calculate_fresnel_zone D f d1 (D - d1) = Inr (fresnel_radius D f d1)"
    using assms D unfolding calculate_fresnel_zone_def fresnel_radius_def py_sqrt_def Let_def
    by (simp only: if_False) simp
qed

lemma Min_insert_min:
  "finite S \<Longrightarrow> Min (insert (min a b) S) = Min (insert a (insert (b::real) S))"
  by (cases "S = {}") (auto simp: min_def)

lemma clearance_loop_total:
  "0 < f \<Longrightarrow> \<exists>st'. clearance_loop D f dists cl idxs st = Inr st'"
proof (induction idxs arbitrary: st)
  case Nil
  then show ?case by simp
next
  case (Cons i rest)
  show ?case
  proof (cases "dists ! i < 1 \<or> D - dists ! i < 1")
    case True
    then show ?thesis using Cons.IH[OF Cons.prems] by (simp add: Let_def)
  next
    case False
    then have "calculate_fresnel_zone D f (dists ! i) (D - dists ! i) = Inr (fresnel_radius D f (dists ! i))"
      using calculate_fresnel_zone_pos(1)[OF Cons.prems, of "dists ! i" D] by simp
    then show ?thesis using False Cons.IH[OF Cons.prems] by (simp add: Let_def)
  qed
qed


lemma clearance_loop_min:
  "clearance_loop D f dists cl idxs st = Inr st' \<Longrightarrow>
     min_ratio st' = Min (insert (min_ratio st) (set (loop_ratios D f dists cl idxs)))"
proof (induction idxs arbitrary: st)
  case Nil
  then show ?case by (simp add: loop_ratios_def)
next
  case (Cons i rest)
  show ?case
  proof (cases "interior D (dists ! i)")
    case False
    then have "clearance_loop D f dists cl rest (st\<lparr>fresnel_radii := fresnel_radii st @ [0.1]\<rparr>) = Inr st'"
      using Cons.prems by (simp add: interior_def Let_def)
    from Cons.IH[OF this] False show ?thesis by (simp add: loop_ratios_def)
  next
    case True
    then obtain f1 where f1: "calculate_fresnel_zone D f (dists ! i) (D - dists ! i) = Inr f1"
      using Cons.prems by (auto simp: interior_def Let_def split: sum.splits)
    have f1_eq: "f1 = fresnel_radius D f (dists ! i)"
      by (rule calculate_fresnel_zone_Inr[OF f1])
    define r where "r = cl ! i / f1"
    have lr: "loop_ratios D f dists cl (i # rest) = r # loop_ratios D f dists cl rest"
      using True by (simp add: loop_ratios_def r_def f1_eq)
    show ?thesis
    proof (cases "r < min_ratio st")
      case True
      have "clearance_loop D f dists cl rest
              (st\<lparr>fresnel_radii := fresnel_radii st @ [f1], min_ratio := r, worst_point_idx := int i\<rparr>) = Inr st'"
        using Cons.prems \<open>interior D (dists ! i)\<close> f1 True
        by (simp add: interior_def Let_def r_def)
      from Cons.IH[OF this] have "min_ratio st' = Min (insert r (set (loop_ratios D f dists cl rest)))"
        by simp
      also have "r = min (min_ratio st) r" using True by simp
      finally show ?thesis
        by (simp add: lr Min_insert_min)
    next
      case False
      have "clearance_loop D f dists cl rest (st\<lparr>fresnel_radii := fresnel_radii st @ [f1]\<rparr>) = Inr st'"
        using Cons.prems \<open>interior D (dists ! i)\<close> f1 False
        by (simp add: interior_def Let_def r_def)
      from Cons.IH[OF this]
      have "min_ratio st' = Min (insert (min_ratio st) (set (loop_ratios D f dists cl rest)))"
        by simp
      also have "min_ratio st = min (min_ratio st) r" using False by simp
      finally show ?thesis
        by (simp add: lr Min_insert_min)
    qed
  qed
qed

lemma analyze_profile_Inr:
  assumes "analyze_profile elevs d f tx rx = Inr r"
  shows "min_clearance_ratio r = Min (insert 100 (set (clearance_ratios elevs d f tx rx)))"
    and "status r = classify (min_clearance_ratio r)"
    and "path_loss_db r = 0"
    and "profile r = elevs"
    and "dist_km r = d / 1000"
proof -
  from assms have ne: "elevs \<noteq> []" by (auto simp: analyze_profile_def)
  from assms ne obtain st where
    st: "clearance_loop d f (linspace 0 d (length elevs)) (link_clearance elevs d tx rx)
           [0..<length elevs] \<lparr>fresnel_radii = [], min_ratio = 100, worst_point_idx = - 1\<rparr> = Inr st"
    and r: "r = \<lparr>dist_km = d / 1000, status = classify (min_ratio st),
                 min_clearance_ratio = min_ratio st, path_loss_db = 0, profile = elevs\<rparr>"
    by (auto simp: analyze_profile_def link_clearance_def Let_def split: sum.splits)
  from clearance_loop_min[OF st] r
  show "min_clearance_ratio r = Min (insert 100 (set (clearance_ratios elevs d f tx rx)))"
    by (simp add: clearance_ratios_def)
  from r show "status r = classify (min_clearance_ratio r)" "path_loss_db r = 0"
    "profile r = elevs" "dist_km r = d / 1000" by simp_all
qed

lemma analyze_profile_total:
  assumes "0 < f" "elevs \<noteq> []"
  shows "\<exists>r. analyze_profile elevs d f tx rx = Inr r"
proof -
  obtain st where
    "clearance_loop d f (linspace 0 d (length elevs)) (link_clearance elevs d tx rx)
           [0..<length elevs] \<lparr>fresnel_radii = [], min_ratio = 100, worst_point_idx = - 1\<rparr> = Inr st"
    using clearance_loop_total[OF assms(1)] by blast
  then show ?thesis using assms(2)
    by (simp add: analyze_profile_def link_clearance_def Let_def)
qed

subsection \<open>Profiles of three samples\<close>

lemma linspace_three_Suc: "linspace a b (Suc (Suc (Suc 0))) = [a, a + (b - a) / 2, b]"
  by (simp add: linspace_def upt_rec field_simps)

lemma linspace_three: "linspace a b 3 = [a, a + (b - a) / 2, b]"
  using linspace_three_Suc[of a b] by (simp add: numeral_3_eq_3)

lemma num_points_three:
  assumes "90 \<le> d" "d < 120"
  shows "nat (max 2 (py_int (d / step_meters))) = 3"
proof -
  have "\<lfloor>d / 30\<rfloor> = 3" using assms by (intro floor_unique) auto
  then show ?thesis using assms by (simp add: py_int_def step_meters_def)
qed

lemma generate_profile_three:
  assumes "haversine_distance lat1 lon1 lat2 lon2 = Inr d" "90 \<le> d" "d < 120"
  shows "generate_profile ge lat1 lon1 lat2 lon2
           = Inr ([ge lat1 lon1, ge (lat1 + (lat2 - lat1) / 2) (lon1 + (lon2 - lon1) / 2),
                   ge lat2 lon2], d)"
proof -
  have "d \<noteq> 0" using assms by simp
  then show ?thesis
    unfolding generate_profile_def assms(1) sum.case Let_def num_points_three[OF assms(2,3)] linspace_three
    by simp
qed

lemma fresnel_radius_mid:
  assumes "0 < d"
  shows "fresnel_radius d f (d / 2) = sqrt (299792000 / (f * 1000000) * d / 4)"
proof -
  have "(1 * (299792000 / (f * 1000000)) * (d / 2) * (d - d / 2)) / d
          = 299792000 / (f * 1000000) * d / 4"
    using assms by (simp add: field_simps)
  then show ?thesis unfolding fresnel_radius_def by (rule arg_cong)
qed

lemma clearance_ratios_three:
  assumes "2 \<le> d"
  shows "clearance_ratios [e0, e1, e2] d f tx rx =
           [((e0 + tx + (e2 + rx - (e0 + tx)) / 2) - (e1 + (d / 2) * (d - d / 2) / (2 * (1.333 * 6371 * 1000))))
              / fresnel_radius d f (d / 2)]"
proof -
  have l: "length [e0, e1, e2] = Suc (Suc (Suc 0))" by simp
  have u: "[0..<Suc (Suc (Suc 0))] = [0, Suc 0, Suc (Suc 0)]" by (simp add: upt_rec)
  show ?thesis
    unfolding clearance_ratios_def link_clearance_def Let_def l u linspace_three_Suc loop_ratios_def
    using assms by (simp add: interior_def EARTH_RADIUS_KM_def)
qed

subsection \<open>Flat terrain\<close>

lemma length_linspace [simp]: "length (linspace a b n) = n"
  by (simp add: linspace_def)

lemma nth_linspace_const: "i < n \<Longrightarrow> linspace a a n ! i = a"
  by (auto simp: linspace_def)

lemma analyze_profile_eq:
  assumes "0 < f" "elevs \<noteq> []"
  shows "analyze_profile elevs d f tx rx =
           Inr \<lparr>dist_km = d / 1000,
                status = classify (Min (insert 100 (set (clearance_ratios elevs d f tx rx)))),
                min_clearance_ratio = Min (insert 100 (set (clearance_ratios elevs d f tx rx))),
                path_loss_db = 0, profile = elevs\<rparr>"
proof -
  obtain r where r: "analyze_profile elevs d f tx rx = Inr r"
    using analyze_profile_total[OF assms] by blast
  have "r = \<lparr>dist_km = d / 1000,
                status = classify (Min (insert 100 (set (clearance_ratios elevs d f tx rx)))),
                min_clearance_ratio = Min (insert 100 (set (clearance_ratios elevs d f tx rx))),
                path_loss_db = 0, profile = elevs\<rparr>"
    using analyze_profile_Inr[OF r] by (intro link_result.equality) simp_all
  with r show ?thesis by simp
qed

lemma generate_profile_nonempty:
  assumes "generate_profile ge lat1 lon1 lat2 lon2 = Inr (elevs, d)"
  shows "elevs \<noteq> []"
proof -
  have "0 < nat (max 2 (py_int (d / step_meters)))" by simp
  then have "linspace x y (nat (max 2 (py_int (d / step_meters)))) \<noteq> []" for x y
    by (metis length_linspace length_greater_0_conv)
  then show ?thesis using assms
    by (auto simp: generate_profile_def Let_def split: sum.splits if_splits)
qed

lemma flat_link_clearance:
  assumes "i < length elevs" "\<forall>x\<in>set elevs. x = e"
  shows "link_clearance elevs d h h ! i =
           h - (linspace 0 d (length elevs) ! i * (d - linspace 0 d (length elevs) ! i))
                 / (2 * (1.333 * 6371 * 1000))"
proof -
  have ne: "elevs \<noteq> []" using assms by auto
  have e0: "elevs ! 0 = e" using assms ne by (metis length_greater_0_conv nth_mem)
  have el: "last elevs = e" using assms ne by (metis last_in_set)
  have ei: "elevs ! i = e" using assms by (metis nth_mem)
  show ?thesis
    using assms(1) 
    by (simp add: link_clearance_def Let_def e0 el ei nth_linspace_const EARTH_RADIUS_KM_def)
qed

lemma product_le_quarter_square: "x * (d - x) \<le> d\<^sup>2 / (4::real)"
proof -
  have "0 \<le> (d / 2 - x)\<^sup>2" by simp
  also have "(d / 2 - x)\<^sup>2 = d\<^sup>2 / 4 - x * (d - x)" by (simp add: power2_eq_square field_simps)
  finally show ?thesis by simp
qed

lemma fresnel_radius_le_mid:
  assumes "0 < f" "0 < d"
  shows "fresnel_radius d f x \<le> sqrt (299792000 / (f * 1000000) * d / 4)"
proof -
  let ?w = "299792000 / (f * 1000000)"
  have w: "0 \<le> ?w" using assms by simp
  have "x * (d - x) / d \<le> (d\<^sup>2 / 4) / d"
    using product_le_quarter_square[of x d] assms by (intro divide_right_mono) auto
  also have "(d\<^sup>2 / 4) / d = d / 4" using assms by (simp add: power2_eq_square)
  finally have "?w * (x * (d - x) / d) \<le> ?w * (d / 4)"
    using w by (rule mult_left_mono)
  then have "(1 * ?w * x * (d - x)) / d \<le> ?w * d / 4" by (simp add: mult.assoc)
  then show ?thesis unfolding fresnel_radius_def by (simp only: real_sqrt_le_iff)
qed

lemma flat_ratio_ge:
  assumes f: "0 < f" and d: "0 < d" and int: "interior d x"
    and hb: "d\<^sup>2 / (8 * (1.333 * 6371 * 1000)) + 0.6 * sqrt (299792000 / (f * 1000000) * d / 4) \<le> h"
  shows "0.6 \<le> (h - (x * (d - x)) / (2 * (1.333 * 6371 * 1000))) / fresnel_radius d f x"
proof -
  let ?F = "fresnel_radius d f x"
  have x1: "1 \<le> x" and x2: "1 \<le> d - x" using int by (auto simp: interior_def)
  have Fpos: "0 < ?F" by (rule calculate_fresnel_zone_pos(2)[OF f x1 x2])
  have Fle: "?F \<le> sqrt (299792000 / (f * 1000000) * d / 4)" by (rule fresnel_radius_le_mid[OF f d])
  have "(x * (d - x)) / (2 * (1.333 * 6371 * 1000)) \<le> (d\<^sup>2 / 4) / (2 * (1.333 * 6371 * 1000))"
    using product_le_quarter_square[of x d] by (intro divide_right_mono) auto
  also have "\<dots> = d\<^sup>2 / (8 * (1.333 * 6371 * 1000))" by simp
  finally have b: "(x * (d - x)) / (2 * (1.333 * 6371 * 1000)) \<le> d\<^sup>2 / (8 * (1.333 * 6371 * 1000))" .
  have "0.6 * ?F \<le> h - (x * (d - x)) / (2 * (1.333 * 6371 * 1000))"
    using b Fle hb by linarith
  then show ?thesis using Fpos by (simp add: pos_le_divide_eq)
qed

lemma flat_clearance_ratios_ge:
  assumes f: "0 < f" and d: "0 < d" and flat: "\<forall>x\<in>set elevs. x = e"
    and hb: "d\<^sup>2 / (8 * (1.333 * 6371 * 1000)) + 0.6 * sqrt (299792000 / (f * 1000000) * d / 4) \<le> h"
  shows "\<forall>q\<in>set (clearance_ratios elevs d f h h). 0.6 \<le> q"
proof
  fix q assume "q \<in> set (clearance_ratios elevs d f h h)"
  then obtain i where i: "i < length elevs" and int: "interior d (linspace 0 d (length elevs) ! i)"
    and q: "q = link_clearance elevs d h h ! i / fresnel_radius d f (linspace 0 d (length elevs) ! i)"
    by (auto simp: clearance_ratios_def loop_ratios_def)
  show "0.6 \<le> q"
    unfolding q flat_link_clearance[OF i flat]
    by (rule flat_ratio_ge[OF f d int hb])
qed

lemma Min_insert_ge:
  fixes S :: "real set"
  assumes "finite S" "c \<le> a" "\<forall>q\<in>S. c \<le> q"
  shows "c \<le> Min (insert a S)"
  using assms by (simp add: Min_ge_iff)

subsection \<open>Dependence on the frequency\<close>

lemma fresnel_radius_antimono:
  assumes "0 < f1" "f1 \<le> f2" "interior d x"
  shows "fresnel_radius d f2 x \<le> fresnel_radius d f1 x"
proof -
  have x1: "1 \<le> x" and x2: "1 \<le> d - x" using assms(3) by (auto simp: interior_def)
  have dpos: "0 < d" using x1 x2 by linarith
  have g: "0 \<le> x * (d - x) / d" using x1 x2 dpos by simp
  have "299792000 / (f2 * 1000000) \<le> 299792000 / (f1 * 1000000)"
    using assms(1,2) by (simp add: frac_le)
  then have "299792000 / (f2 * 1000000) * (x * (d - x) / d) \<le> 299792000 / (f1 * 1000000) * (x * (d - x) / d)"
    using g by (rule mult_right_mono)
  then have "(1 * (299792000 / (f2 * 1000000)) * x * (d - x)) / d
               \<le> (1 * (299792000 / (f1 * 1000000)) * x * (d - x)) / d"
    by (simp add: mult.assoc)
  then show ?thesis unfolding fresnel_radius_def by (simp only: real_sqrt_le_iff)
qed

lemma ratio_monotone:
  assumes "0 < f1" "f1 \<le> f2" "interior d x" "0 \<le> c / fresnel_radius d f1 x"
  shows "c / fresnel_radius d f1 x \<le> c / fresnel_radius d f2 x"
proof -
  have x1: "1 \<le> x" and x2: "1 \<le> d - x" using assms(3) by (auto simp: interior_def)
  have p1: "0 < fresnel_radius d f1 x" by (rule calculate_fresnel_zone_pos(2)[OF assms(1) x1 x2])
  have f2: "0 < f2" using assms by linarith
  have p2: "0 < fresnel_radius d f2 x" by (rule calculate_fresnel_zone_pos(2)[OF f2 x1 x2])
  have c: "0 \<le> c" using assms(4) p1 by (simp add: zero_le_divide_iff)
  show ?thesis
    using fresnel_radius_antimono[OF assms(1,2,3)] p1 p2 c by (simp add: frac_le)
qed

lemma clearance_ratios_monotone:
  assumes "0 < f1" "f1 \<le> f2"
    and nn: "\<forall>q\<in>set (clearance_ratios elevs d f1 tx rx). 0 \<le> q"
    and q2: "q2 \<in> set (clearance_ratios elevs d f2 tx rx)"
  shows "\<exists>q1\<in>set (clearance_ratios elevs d f1 tx rx). q1 \<le> q2"
proof -
  let ?ds = "linspace 0 d (length elevs)"
  let ?cl = "link_clearance elevs d tx rx"
  from q2 obtain i where i: "i < length elevs" and int: "interior d (?ds ! i)"
    and q2_eq: "q2 = ?cl ! i / fresnel_radius d f2 (?ds ! i)"
    by (auto simp: clearance_ratios_def loop_ratios_def)
  let ?q1 = "?cl ! i / fresnel_radius d f1 (?ds ! i)"
  have mem: "?q1 \<in> set (clearance_ratios elevs d f1 tx rx)"
    using i int by (auto simp: clearance_ratios_def loop_ratios_def)
  then have "0 \<le> ?q1" using nn by blast
  then have "?q1 \<le> q2" unfolding q2_eq by (rule ratio_monotone[OF assms(1,2) int])
  with mem show ?thesis by blast
qed

lemma Min_insert_mono:
  fixes S1 S2 :: "real set"
  assumes "finite S1" "finite S2" "\<forall>q2\<in>S2. \<exists>q1\<in>S1. q1 \<le> q2"
  shows "Min (insert a S1) \<le> Min (insert a S2)"
proof -
  have "Min (insert a S1) \<le> y" if y: "y \<in> insert a S2" for y
  proof (cases "y = a")
    case True
    then show ?thesis using assms(1) by simp
  next
    case False
    then obtain q1 where "q1 \<in> S1" "q1 \<le> y" using y assms(3) by auto
    moreover have "Min (insert a S1) \<le> q1" using assms(1) \<open>q1 \<in> S1\<close> by simp
    ultimately show ?thesis by linarith
  qed
  then show ?thesis using assms(2) by (simp add: Min_ge_iff)
qed

lemma Min_insert_nonneg:
  fixes S :: "real set"
  assumes "finite S" "0 \<le> Min (insert a S)"
  shows "\<forall>q\<in>S. 0 \<le> q"
  using assms by (simp add: Min_ge_iff)

subsection \<open>The link from (0, 0) to (0, 0.001) along the equator\<close>

lemma equator_111m:
  "haversine_distance 0 0 0 (1 / 1000) = Inr (6371 * pi / 180)"
  "106 \<le> 6371 * pi / 180" "6371 * pi / 180 \<le> 114"
proof -
  have "haversine_distance 0 0 0 (1 / 1000) = Inr (6371000 * (1 / 1000 * pi / 180))"
    by (rule haversine_equator) simp_all
  then show "haversine_distance 0 0 0 (1 / 1000) = Inr (6371 * pi / 180)" by simp
  show "106 \<le> 6371 * pi / 180" using pi_ge_3 by simp
  show "6371 * pi / 180 \<le> 114" using pi_le_32 by simp
qed

lemma generate_profile_equator:
  "generate_profile ge 0 0 0 (1 / 1000) = Inr ([ge 0 0, ge 0 (1 / 2000), ge 0 (1 / 1000)], 6371 * pi / 180)"
proof -
  have a: "90 \<le> 6371 * pi / 180" using equator_111m(2) by linarith
  have b: "6371 * pi / 180 < 120" using equator_111m(3) by linarith
  show ?thesis using generate_profile_three[OF equator_111m(1) a b, of ge] by simp
qed

lemma link_ratios_equator:
  "link_ratios ge 0 0 0 (1 / 1000) f tx rx =
     [((ge 0 0 + tx + (ge 0 (1 / 1000) + rx - (ge 0 0 + tx)) / 2)
        - (ge 0 (1 / 2000) + (6371 * pi / 180 / 2) * (6371 * pi / 180 - 6371 * pi / 180 / 2) / (2 * (1.333 * 6371 * 1000))))
       / sqrt (299792000 / (f * 1000000) * (6371 * pi / 180) / 4)]"
proof -
  have a: "2 \<le> 6371 * pi / 180" using equator_111m(2) by linarith
  have b: "0 < 6371 * pi / 180" using equator_111m(2) by linarith
  show ?thesis
    unfolding link_ratios_def generate_profile_equator sum.case prod.case
      clearance_ratios_three[OF a] fresnel_radius_mid[OF b] ..
qed

lemma analyze_link_equator:
  assumes "0 < f"
  shows "analyze_link ge 0 0 0 (1 / 1000) f tx rx =
     Inr \<lparr>dist_km = 6371 * pi / 180 / 1000,
          status = classify (Min (insert 100 (set (link_ratios ge 0 0 0 (1 / 1000) f tx rx)))),
          min_clearance_ratio = Min (insert 100 (set (link_ratios ge 0 0 0 (1 / 1000) f tx rx))),
          path_loss_db = 0,
          profile = [ge 0 0, ge 0 (1 / 2000), ge 0 (1 / 1000)]\<rparr>"
proof -
  have ne: "[ge 0 0, ge 0 (1 / 2000), ge 0 (1 / 1000)] \<noteq> []" by simp
  show ?thesis
    unfolding analyze_link_def link_ratios_def generate_profile_equator sum.case prod.case
    by (rule analyze_profile_eq[OF assms ne])
qed

lemma bulge_equator_small:
  "0 \<le> (6371 * pi / 180 / 2) * (6371 * pi / 180 - 6371 * pi / 180 / 2) / (2 * (1.333 * 6371 * 1000))"
  "(6371 * pi / 180 / 2) * (6371 * pi / 180 - 6371 * pi / 180 / 2) / (2 * (1.333 * 6371 * 1000)) \<le> 1 / 1000"
proof -
  define d :: real where "d = 6371 * pi / 180"
  have d1: "106 \<le> d" and d2: "d \<le> 114" using equator_111m(2,3) by (simp_all add: d_def)
  have e: "(d / 2) * (d - d / 2) = d * d / 4" by (simp add: field_simps)
  have "d * d \<le> 114 * 114" using d1 d2 by (intro mult_mono) auto
  then have u: "d * d / 4 \<le> 3249" by simp
  have l: "0 \<le> d * d / 4" by simp
  have "0 \<le> (d / 2) * (d - d / 2) / (2 * (1.333 * 6371 * 1000))"
    unfolding e using l by simp
  then show "0 \<le> (6371 * pi / 180 / 2) * (6371 * pi / 180 - 6371 * pi / 180 / 2) / (2 * (1.333 * 6371 * 1000))"
    by (simp only: d_def)
  have "(d / 2) * (d - d / 2) / (2 * (1.333 * 6371 * 1000)) \<le> 1 / 1000"
    unfolding e using u by simp
  then show "(6371 * pi / 180 / 2) * (6371 * pi / 180 - 6371 * pi / 180 / 2) / (2 * (1.333 * 6371 * 1000)) \<le> 1 / 1000"
    by (simp only: d_def)
qed

lemma fresnel_equator_bounds:
  assumes "0 < f"
  shows "sqrt (299792000 / (f * 1000000) * 106 / 4) \<le> sqrt (299792000 / (f * 1000000) * (6371 * pi / 180) / 4)"
    and "sqrt (299792000 / (f * 1000000) * (6371 * pi / 180) / 4) \<le> sqrt (299792000 / (f * 1000000) * 114 / 4)"
    and "0 < sqrt (299792000 / (f * 1000000) * (6371 * pi / 180) / 4)"
proof -
  have w: "0 < 299792000 / (f * 1000000)" using assms by simp
  have "299792000 / (f * 1000000) * 106 \<le> 299792000 / (f * 1000000) * (6371 * pi / 180)"
    using w equator_111m(2) by (intro mult_left_mono) auto
  then show "sqrt (299792000 / (f * 1000000) * 106 / 4) \<le> sqrt (299792000 / (f * 1000000) * (6371 * pi / 180) / 4)"
    by (simp only: real_sqrt_le_iff divide_right_mono)
  have "299792000 / (f * 1000000) * (6371 * pi / 180) \<le> 299792000 / (f * 1000000) * 114"
    using w equator_111m(3) by (intro mult_left_mono) auto
  then show "sqrt (299792000 / (f * 1000000) * (6371 * pi / 180) / 4) \<le> sqrt (299792000 / (f * 1000000) * 114 / 4)"
    by (simp only: real_sqrt_le_iff divide_right_mono)
  have "0 < 299792000 / (f * 1000000) * (6371 * pi / 180) / 4"
    using w by simp
  then show "0 < sqrt (299792000 / (f * 1000000) * (6371 * pi / 180) / 4)"
    by (simp only: real_sqrt_gt_0_iff)
qed


section \<open>Claims about the link analysis\<close>

text \<open>
  C1 (as amended). Whenever \<open>analyze_link\<close> returns a result, its
  \<open>min_clearance_ratio\<close> is the minimum of the initial value 100 and of the clearance
  ratios at the samples lying at least 1 m from both end points, and its status is
  classified from that field: below 0 blocked, from 0 and below 0.6 degraded, from 0.6
  viable.
\<close>
theorem analyze_link_status_classification:
  assumes "analyze_link get_elevation lat1 lon1 lat2 lon2 freq_mhz tx_h rx_h = Inr r"
  shows "min_clearance_ratio r
           = Min (insert 100 (set (link_ratios get_elevation lat1 lon1 lat2 lon2 freq_mhz tx_h rx_h)))
         \<and> status r = (if min_clearance_ratio r < 0 then Blocked
                        else if min_clearance_ratio r < 0.6 then Degraded
                        else Viable)"
proof -
  from assms obtain elevs d where
    g: "generate_profile get_elevation lat1 lon1 lat2 lon2 = Inr (elevs, d)"
    and a: "analyze_profile elevs d freq_mhz tx_h rx_h = Inr r"
    by (auto simp: analyze_link_def split: sum.splits)
  show ?thesis
    using analyze_profile_Inr(1,2)[OF a] g by (simp add: link_ratios_def classify_def)
qed

theorem analyze_link_status_classification_witness:
  "\<exists>r. analyze_link (\<lambda>lat lon. 0) 0 0 0 (1 / 1000) 100 2 2 = Inr r
       \<and> min_clearance_ratio r
           = Min (insert 100 (set (link_ratios (\<lambda>lat lon. 0) 0 0 0 (1 / 1000) 100 2 2)))
       \<and> status r = (if min_clearance_ratio r < 0 then Blocked
                      else if min_clearance_ratio r < 0.6 then Degraded
                      else Viable)"
proof -
  obtain r where r: "analyze_link (\<lambda>lat lon. 0) 0 0 0 (1 / 1000) 100 2 2 = Inr r"
    using analyze_link_equator[of 100 "\<lambda>lat lon. 0" 2 2] by simp
  from analyze_link_status_classification[OF r] r show ?thesis by blast
qed

text \<open>
  C1 as stated fails where every clearance ratio of the profile exceeds 100: flat
  terrain, 111 m along the equator, 5800 MHz, antennas at 200 m. The only ratio of the
  profile is above 100, yet the field returned is 100.
\<close>
theorem analyze_link_min_ratio_counterexample:
  "(\<exists>r. analyze_link (\<lambda>lat lon. 0) 0 0 0 (1 / 1000) 5800 200 200 = Inr r
        \<and> min_clearance_ratio r = 100)
   \<and> (\<exists>q. link_ratios (\<lambda>lat lon. 0) 0 0 0 (1 / 1000) 5800 200 200 = [q] \<and> 100 < q)"
proof -
  define b where "b = (6371 * pi / 180 / 2) * (6371 * pi / 180 - 6371 * pi / 180 / 2) / (2 * (1.333 * 6371 * 1000))"
  define F where "F = sqrt (299792000 / (5800 * 1000000) * (6371 * pi / 180) / 4)"
  define q where "q = ((0 + 200 + (0 + 200 - (0 + 200)) / 2) - (0 + b)) / F"
  have lr: "link_ratios (\<lambda>lat lon. 0) 0 0 0 (1 / 1000) 5800 200 200 = [q]"
    unfolding q_def b_def F_def by (rule link_ratios_equator)
  have "sqrt (299792000 / (5800 * 1000000) * 114 / 4) \<le> 3 / 2"
    by (rule real_le_lsqrt) (simp_all add: power2_eq_square)
  then have F_le: "F \<le> 3 / 2" unfolding F_def using fresnel_equator_bounds(2)[of 5800] by linarith
  have F_pos: "0 < F" unfolding F_def using fresnel_equator_bounds(3)[of 5800] by simp
  have b_le: "b \<le> 1 / 1000" unfolding b_def by (rule bulge_equator_small(2))
  have "100 * F < (0 + 200 + (0 + 200 - (0 + 200)) / 2) - (0 + b)"
    using F_le b_le by simp
  then have q: "100 < q" unfolding q_def using F_pos by (simp only: pos_less_divide_eq)
  have "Min (insert 100 (set [q])) = 100" using q by (simp add: min_def)
  then have "\<exists>r. analyze_link (\<lambda>lat lon. 0) 0 0 0 (1 / 1000) 5800 200 200 = Inr r
        \<and> min_clearance_ratio r = 100"
    unfolding analyze_link_equator[of 5800, simplified] lr by simp
  with lr q show ?thesis by blast
qed

text \<open>
  C2 (as amended). For a distance above 0 and a positive frequency, if all elevation
  samples of the profile are equal and both antennas have the same height \<open>h\<close>, and
  \<open>h\<close> is at least the largest earth bulge \<open>d\<^sup>2 / (8 k R)\<close> plus 0.6 times the
  largest first Fresnel radius \<open>sqrt (lambda d / 4)\<close> of the path, then \<open>analyze_link\<close>
  reports status viable with \<open>min_clearance_ratio\<close> at least 0.6.
\<close>
theorem flat_terrain_viable:
  assumes prof: "generate_profile get_elevation lat1 lon1 lat2 lon2 = Inr (elevs, d)"
    and d: "0 < d" and f: "0 < freq_mhz"
    and flat: "\<forall>x\<in>set elevs. x = e"
    and hb: "d\<^sup>2 / (8 * (1.333 * 6371 * 1000))
               + 0.6 * sqrt (299792000 / (freq_mhz * 1000000) * d / 4) \<le> h"
  shows "\<exists>r. analyze_link get_elevation lat1 lon1 lat2 lon2 freq_mhz h h = Inr r
             \<and> status r = Viable \<and> 0.6 \<le> min_clearance_ratio r"
proof -
  let ?m = "Min (insert 100 (set (clearance_ratios elevs d freq_mhz h h)))"
  have ne: "elevs \<noteq> []" by (rule generate_profile_nonempty[OF prof])
  have "0.6 \<le> ?m"
    using flat_clearance_ratios_ge[OF f d flat hb] by (intro Min_insert_ge) auto
  then have m: "0.6 \<le> ?m" "classify ?m = Viable" by (simp_all add: classify_def)
  show ?thesis
    unfolding analyze_link_def prof sum.case prod.case analyze_profile_eq[OF f ne]
    using m by simp
qed

theorem flat_terrain_viable_witness:
  "\<exists>r. analyze_link (\<lambda>lat lon. 35) 0 0 0 (1 / 1000) 1000 10 10 = Inr r
       \<and> status r = Viable \<and> 0.6 \<le> min_clearance_ratio r"
proof -
  define d :: real where "d = 6371 * pi / 180"
  have d1: "106 \<le> d" and d2: "d \<le> 114" using equator_111m(2,3) by (simp_all add: d_def)
  have prof: "generate_profile (\<lambda>lat lon. 35) 0 0 0 (1 / 1000) = Inr ([35, 35, 35], d)"
    unfolding d_def by (rule generate_profile_equator)
  have flat: "\<forall>x\<in>set [35, 35, 35 :: real]. x = 35" by simp
  have dpos: "0 < d" using d1 by linarith
  have "d * d \<le> 114 * 114" using d1 d2 by (intro mult_mono) auto
  then have "d\<^sup>2 / (8 * (1.333 * 6371 * 1000)) \<le> 1" by (simp add: power2_eq_square)
  moreover have "sqrt (299792000 / (1000 * 1000000) * d / 4) \<le> 3"
    using d2 by (intro real_le_lsqrt) (simp_all add: power2_eq_square)
  ultimately have hb: "d\<^sup>2 / (8 * (1.333 * 6371 * 1000))
               + 0.6 * sqrt (299792000 / (1000 * 1000000) * d / 4) \<le> 10"
    by simp
  show ?thesis
    by (rule flat_terrain_viable[OF prof dpos _ flat hb]) simp
qed

text \<open>
  C2 as stated fails: flat terrain at 0 m, both antennas at 2 m, 433 MHz, 111 m along
  the equator. The link is reported degraded, with a ratio below 0.6.
\<close>
theorem flat_terrain_counterexample:
  "\<exists>r. analyze_link (\<lambda>lat lon. 0) 0 0 0 (1 / 1000) 433 2 2 = Inr r
       \<and> status r = Degraded \<and> min_clearance_ratio r < 0.6"
proof -
  define b where "b = (6371 * pi / 180 / 2) * (6371 * pi / 180 - 6371 * pi / 180 / 2) / (2 * (1.333 * 6371 * 1000))"
  define F where "F = sqrt (299792000 / (433 * 1000000) * (6371 * pi / 180) / 4)"
  define q where "q = ((0 + 2 + (0 + 2 - (0 + 2)) / 2) - (0 + b)) / F"
  have lr: "link_ratios (\<lambda>lat lon. 0) 0 0 0 (1 / 1000) 433 2 2 = [q]"
    unfolding q_def b_def F_def by (rule link_ratios_equator)
  have "4 \<le> sqrt (299792000 / (433 * 1000000) * 106 / 4)"
    by (rule real_le_rsqrt) (simp add: power2_eq_square)
  then have F_ge: "4 \<le> F" unfolding F_def using fresnel_equator_bounds(1)[of 433] by linarith
  have b_le: "b \<le> 1 / 1000" unfolding b_def by (rule bulge_equator_small(2))
  have b_ge: "0 \<le> b" unfolding b_def by (rule bulge_equator_small(1))
  have "(0 + 2 + (0 + 2 - (0 + 2)) / 2) - (0 + b) < (6 / 10) * F"
    using F_ge b_ge by simp
  then have q_lt: "q < 6 / 10" unfolding q_def using F_ge by (simp only: pos_divide_less_eq)
  have "0 \<le> (0 + 2 + (0 + 2 - (0 + 2)) / 2) - (0 + b)" using b_le by simp
  then have q_ge: "0 \<le> q" unfolding q_def using F_ge by simp
  have m: "Min (insert 100 (set [q])) = q" using q_lt by (simp add: min_def)
  have c: "classify q = Degraded" using q_lt q_ge by (simp add: classify_def)
  show ?thesis
    unfolding analyze_link_equator[of 433, simplified] lr m c using q_lt by simp
qed

text \<open>
  C3 (as amended). With end points, terrain and antenna heights fixed and
  \<open>0 < f1 < f2\<close>, if \<open>analyze_link\<close> returns a result at both frequencies and the
  \<open>min_clearance_ratio\<close> returned at \<open>f1\<close> is not negative (the link is not blocked),
  the one returned at \<open>f2\<close> is greater or equal.
\<close>
theorem min_clearance_ratio_monotone_in_frequency:
  assumes f1: "0 < f1" and f12: "f1 < f2"
    and r1: "analyze_link get_elevation lat1 lon1 lat2 lon2 f1 tx_h rx_h = Inr r1"
    and r2: "analyze_link get_elevation lat1 lon1 lat2 lon2 f2 tx_h rx_h = Inr r2"
    and nonneg: "0 \<le> min_clearance_ratio r1"
  shows "min_clearance_ratio r1 \<le> min_clearance_ratio r2"
proof -
  from r1 obtain elevs d where
    g: "generate_profile get_elevation lat1 lon1 lat2 lon2 = Inr (elevs, d)"
    and a1: "analyze_profile elevs d f1 tx_h rx_h = Inr r1"
    by (auto simp: analyze_link_def split: sum.splits)
  from r2 g have a2: "analyze_profile elevs d f2 tx_h rx_h = Inr r2"
    by (simp add: analyze_link_def)
  let ?S1 = "set (clearance_ratios elevs d f1 tx_h rx_h)"
  let ?S2 = "set (clearance_ratios elevs d f2 tx_h rx_h)"
  have m1: "min_clearance_ratio r1 = Min (insert 100 ?S1)" by (rule analyze_profile_Inr(1)[OF a1])
  have m2: "min_clearance_ratio r2 = Min (insert 100 ?S2)" by (rule analyze_profile_Inr(1)[OF a2])
  have nn: "\<forall>q\<in>?S1. 0 \<le> q"
    using nonneg unfolding m1 by (intro Min_insert_nonneg[of _ 100]) auto
  have le: "f1 \<le> f2" using f12 by simp
  have "\<forall>q2\<in>?S2. \<exists>q1\<in>?S1. q1 \<le> q2"
    using clearance_ratios_monotone[OF f1 le nn] by blast
  then show ?thesis unfolding m1 m2 by (intro Min_insert_mono) auto
qed

theorem min_clearance_ratio_monotone_in_frequency_witness:
  "\<exists>r1 r2. analyze_link (\<lambda>lat lon. 0) 0 0 0 (1 / 1000) 100 2 2 = Inr r1
         \<and> analyze_link (\<lambda>lat lon. 0) 0 0 0 (1 / 1000) 400 2 2 = Inr r2
         \<and> 0 \<le> min_clearance_ratio r1
         \<and> min_clearance_ratio r1 \<le> min_clearance_ratio r2"
proof -
  define b where "b = (6371 * pi / 180 / 2) * (6371 * pi / 180 - 6371 * pi / 180 / 2) / (2 * (1.333 * 6371 * 1000))"
  define F where "F = sqrt (299792000 / (100 * 1000000) * (6371 * pi / 180) / 4)"
  define q where "q = ((0 + 2 + (0 + 2 - (0 + 2)) / 2) - (0 + b)) / F"
  have lr: "link_ratios (\<lambda>lat lon. 0) 0 0 0 (1 / 1000) 100 2 2 = [q]"
    unfolding q_def b_def F_def by (rule link_ratios_equator)
  have F_pos: "0 < F" unfolding F_def using fresnel_equator_bounds(3)[of 100] by simp
  have b_le: "b \<le> 1 / 1000" unfolding b_def by (rule bulge_equator_small(2))
  have "0 \<le> (0 + 2 + (0 + 2 - (0 + 2)) / 2) - (0 + b)" using b_le by simp
  then have q_ge: "0 \<le> q" unfolding q_def using F_pos by simp
  obtain r1 where r1: "analyze_link (\<lambda>lat lon. 0) 0 0 0 (1 / 1000) 100 2 2 = Inr r1"
    and m1: "min_clearance_ratio r1 = Min (insert 100 (set [q]))"
    using analyze_link_equator[of 100 "\<lambda>lat lon. 0" 2 2] lr by auto
  obtain r2 where r2: "analyze_link (\<lambda>lat lon. 0) 0 0 0 (1 / 1000) 400 2 2 = Inr r2"
    using analyze_link_equator[of 400 "\<lambda>lat lon. 0" 2 2] by simp
  have nn: "0 \<le> min_clearance_ratio r1" unfolding m1 using q_ge by (simp add: min_def)
  have "min_clearance_ratio r1 \<le> min_clearance_ratio r2"
    by (rule min_clearance_ratio_monotone_in_frequency[OF _ _ r1 r2 nn]) simp_all
  with r1 r2 nn show ?thesis by blast
qed

text \<open>
  C3 as stated fails on a blocked link: a 50 m obstacle at the middle sample, antennas at
  10 m. The clearance there is negative, and dividing it by the smaller Fresnel radius
  of 400 MHz gives a smaller ratio than at 100 MHz.
\<close>
theorem frequency_monotonicity_counterexample:
  "\<exists>r1 r2. analyze_link (\<lambda>lat lon. if lon = 1 / 2000 then 50 else 0) 0 0 0 (1 / 1000) 100 10 10 = Inr r1
         \<and> analyze_link (\<lambda>lat lon. if lon = 1 / 2000 then 50 else 0) 0 0 0 (1 / 1000) 400 10 10 = Inr r2
         \<and> min_clearance_ratio r2 < min_clearance_ratio r1"
proof -
  let ?ge = "\<lambda>(lat::real) (lon::real). if lon = 1 / 2000 then 50 else (0::real)"
  define b where "b = (6371 * pi / 180 / 2) * (6371 * pi / 180 - 6371 * pi / 180 / 2) / (2 * (1.333 * 6371 * 1000))"
  define F1 where "F1 = sqrt (299792000 / (100 * 1000000) * (6371 * pi / 180) / 4)"
  define F2 where "F2 = sqrt (299792000 / (400 * 1000000) * (6371 * pi / 180) / 4)"
  define c where "c = (0 + 10 + (0 + 10 - (0 + 10)) / 2) - (50 + b)"
  have lr1: "link_ratios ?ge 0 0 0 (1 / 1000) 100 10 10 = [c / F1]"
    using link_ratios_equator[of ?ge 100 10 10] by (simp add: c_def b_def F1_def)
  have lr2: "link_ratios ?ge 0 0 0 (1 / 1000) 400 10 10 = [c / F2]"
    using link_ratios_equator[of ?ge 400 10 10] by (simp add: c_def b_def F2_def)
  have F1_pos: "0 < F1" unfolding F1_def using fresnel_equator_bounds(3)[of 100] by simp
  have F2_pos: "0 < F2" unfolding F2_def using fresnel_equator_bounds(3)[of 400] by simp
  have "299792000 / (400 * 1000000) * (6371 * pi / 180) / 4 < 299792000 / (100 * 1000000) * (6371 * pi / 180) / 4"
    by simp
  then have F21: "F2 < F1" unfolding F1_def F2_def by (simp only: real_sqrt_less_iff)
  have b_ge: "0 \<le> b" unfolding b_def by (rule bulge_equator_small(1))
  have c_neg: "c < 0" unfolding c_def using b_ge by simp
  have lt: "c / F2 < c / F1"
    using F21 F1_pos F2_pos c_neg by (simp add: divide_strict_left_mono_neg)
  have q1: "c / F1 < 0" using c_neg F1_pos by (simp add: divide_neg_pos)
  have q2: "c / F2 < 0" using c_neg F2_pos by (simp add: divide_neg_pos)
  have m1: "Min (insert 100 (set [c / F1])) = c / F1" using q1 by (simp add: min_def)
  have m2: "Min (insert 100 (set [c / F2])) = c / F2" using q2 by (simp add: min_def)
  show ?thesis
    unfolding analyze_link_equator[of 100, simplified] analyze_link_equator[of 400, simplified]
      lr1 lr2 m1 m2
    using lt by simp
qed

text \<open>
  C4 (as amended). The \<open>path_loss_db\<close> field of every result of \<open>analyze_link\<close> is the
  constant placeholder 0. The free-space formula
  \<open>20 log10 (d_km) + 20 log10 (f_mhz) + 32.44\<close> is what the separate function
  \<open>calculate_itm_loss\<close> returns for a distance of at least 1 m and a positive frequency;
  \<open>analyze_link\<close> does not call it.
\<close>
theorem path_loss_placeholder:
  "(analyze_link get_elevation lat1 lon1 lat2 lon2 freq_mhz tx_h rx_h = Inr r
      \<longrightarrow> path_loss_db r = 0)
   \<and> (1 \<le> dist_m \<and> 0 < freq_mhz
      \<longrightarrow> calculate_itm_loss dist_m elevs freq_mhz tx_h rx_h
            = Inr (20 * log 10 (dist_m / 1000) + 20 * log 10 freq_mhz + 32.44))"
proof (intro conjI impI)
  assume "analyze_link get_elevation lat1 lon1 lat2 lon2 freq_mhz tx_h rx_h = Inr r"
  then obtain es d where "analyze_profile es d freq_mhz tx_h rx_h = Inr r"
    by (auto simp: analyze_link_def split: sum.splits)
  then show "path_loss_db r = 0" by (rule analyze_profile_Inr(3))
next
  assume "1 \<le> dist_m \<and> 0 < freq_mhz"
  then show "calculate_itm_loss dist_m elevs freq_mhz tx_h rx_h
            = Inr (20 * log 10 (dist_m / 1000) + 20 * log 10 freq_mhz + 32.44)"
    by (simp add: calculate_itm_loss_def py_log10_def Let_def)
qed

theorem path_loss_placeholder_witness:
  "(\<exists>r. analyze_link (\<lambda>lat lon. 0) 0 0 0 (1 / 1000) 1000 10 10 = Inr r \<and> path_loss_db r = 0)
   \<and> calculate_itm_loss 10000 [] 1000 10 10 = Inr (20 * log 10 (10000 / 1000) + 20 * log 10 1000 + 32.44)"
proof -
  obtain r where r: "analyze_link (\<lambda>lat lon. 0) 0 0 0 (1 / 1000) 1000 10 10 = Inr r"
    using analyze_link_equator[of 1000 "\<lambda>lat lon. 0" 10 10] by simp
  have h: "(1::real) \<le> 10000 \<and> (0::real) < 1000" by simp
  from path_loss_placeholder[of "\<lambda>lat lon. 0" 0 0 0 "1 / 1000" 1000 10 10 r 10000 "[]"] r h
  show ?thesis by blast
qed

text \<open>
  C4 as stated fails: at 1000 MHz over 111 m the field is 0, while the free-space
  formula at the result's own distance is positive.
\<close>
theorem path_loss_counterexample:
  "\<exists>r. analyze_link (\<lambda>lat lon. 0) 0 0 0 (1 / 1000) 1000 10 10 = Inr r
       \<and> path_loss_db r = 0
       \<and> 0 < 20 * log 10 (dist_km r) + 20 * log 10 1000 + 32.44"
proof -
  define d :: real where "d = 6371 * pi / 180"
  have d1: "106 \<le> d" using equator_111m(2) by (simp add: d_def)
  have "log 10 (1 / 10) \<le> log 10 (d / 1000)"
    using d1 by (subst log_le_cancel_iff) auto
  moreover have "log 10 (1 / 10) = - 1"
    by (simp add: log_divide)
  ultimately have l1: "- 1 \<le> log 10 (d / 1000)" by simp
  have "log 10 1 \<le> log 10 1000" by (subst log_le_cancel_iff) auto
  then have l2: "0 \<le> log 10 1000" by simp
  have "0 < 20 * A + 20 * B + 32.44" if "- 1 \<le> A" "0 \<le> B" for A B :: real
    using that by simp
  from this[OF l1 l2] have pos: "0 < 20 * log 10 (d / 1000) + 20 * log 10 1000 + 32.44" .
  show ?thesis
    unfolding analyze_link_equator[of 1000, simplified] using pos by (simp add: d_def)
qed

text \<open>
  C5. When the haversine distance of the end points is positive and below 90 m, the
  profile has exactly two samples (the elevations at the two end points), the loop
  computes no clearance ratio, and the result has status viable and
  \<open>min_clearance_ratio\<close> equal to the initial value 100, whatever the terrain, the
  frequency and the antenna heights are.
\<close>

theorem analyze_link_short_distance:
  assumes "haversine_distance lat1 lon1 lat2 lon2 = Inr d" and "0 < d" and "d < 90"
  shows "generate_profile get_elevation lat1 lon1 lat2 lon2
           = Inr ([get_elevation lat1 lon1, get_elevation lat2 lon2], d)
         \<and> link_ratios get_elevation lat1 lon1 lat2 lon2 freq_mhz tx_h rx_h = []
         \<and> analyze_link get_elevation lat1 lon1 lat2 lon2 freq_mhz tx_h rx_h
           = Inr \<lparr>dist_km = d / 1000, status = Viable, min_clearance_ratio = 100,
                  path_loss_db = 0,
                  profile = [get_elevation lat1 lon1, get_elevation lat2 lon2]\<rparr>"
  using generate_profile_short[OF assms, of get_elevation]
  by (simp add: analyze_link_def link_ratios_def analyze_profile_two clearance_ratios_two)

theorem analyze_link_short_distance_witness:
  "analyze_link (\<lambda>lat lon. 250 * lon) 0 0 0 (1 / 2000) 915 (- 5) 3
     = Inr \<lparr>dist_km = (6371000 * (1 / 2000 * pi / 180)) / 1000, status = Viable,
            min_clearance_ratio = 100, path_loss_db = 0,
            profile = [0, 1 / 8]\<rparr>"
proof -
  have h: "haversine_distance 0 0 0 (1 / 2000) = Inr (6371000 * (1 / 2000 * pi / 180))"
    by (rule haversine_equator) simp_all
  have pos: "0 < 6371000 * (1 / 2000 * pi / 180)" by simp
  have "6371000 * (1 / 2000 * pi / 180) < 6371000 * (1 / 2000 * 4 / 180)"
    using pi_less_4 by simp
  then have small: "6371000 * (1 / 2000 * pi / 180) < 90" by simp
  show ?thesis
    using analyze_link_short_distance[OF h pos small, of "\<lambda>lat lon. 250 * lon" 915 "- 5" 3]
    by simp
qed

section \<open>network\_planner.py\<close>

subsection \<open>The division \<open>weight / count\<close>\<close>

text \<open>
  The weight of a candidate is what the site dictionary of the caller holds: an
  \<open>int\<close> (the default is the \<open>int\<close> 1) or a \<open>float\<close>. Infinite and NaN weights are
  outside the model, and the argument of \<open>PyFloat\<close> is meant to be a double.
\<close>

datatype py_number = PyInt int | PyFloat real

definition number_value :: "py_number \<Rightarrow> real" where
  "number_value w = (case w of PyInt i \<Rightarrow> of_int i | PyFloat x \<Rightarrow> x)"

text \<open>
  The ratio \<open>weight / count\<close> is a true division by the positive \<open>int\<close> \<open>count\<close>. Which
  candidate wins a round is decided by comparing these quotients as the machine computes
  them, so the quotient is modelled as the double the division returns, not as the real
  quotient: the real quotient rounded to the nearest double, a tie going to the even
  mantissa. A double has 53 bits of mantissa; the exponent of a normal double is at least
  -1022, and below that the spacing of the doubles stays that of exponent -1022.
\<close>

definition round_half_even :: "real \<Rightarrow> int" where
  "round_half_even q =
     (let f = \<lfloor>q\<rfloor>; d = q - of_int f
      in if d < 1 / 2 then f else if 1 / 2 < d then f + 1 else if even f then f else f + 1)"

definition double_exponent :: "real \<Rightarrow> int" where
  "double_exponent x = max \<lfloor>log 2 \<bar>x\<bar>\<rfloor> (- 1022)"

definition round_double :: "real \<Rightarrow> real" where
  "round_double x =
     (if x = 0 then 0
      else (let ulp = 2 powr of_int (double_exponent x - 52)
            in of_int (round_half_even (x / ulp)) * ulp))"

text \<open>
  \<open>weight / count\<close>. The division of an \<open>int\<close> by an \<open>int\<close> is rounded once and raises
  \<open>OverflowError\<close> when the rounded quotient exceeds the largest double. A \<open>float\<close>
  divided by an \<open>int\<close> converts the count, which is exact for a count below \<open>2^53\<close>, and
  cannot overflow, the count being at least 1.
\<close>

definition float_quotient :: "py_number \<Rightarrow> nat \<Rightarrow> real" where
  "float_quotient w count = round_double (number_value w / real count)"

definition py_truediv :: "py_number \<Rightarrow> nat \<Rightarrow> py_error + real" where
  "py_truediv w count =
     (if count = 0 then Inl ZeroDivisionError
      else case w of
             PyFloat x \<Rightarrow> Inr (float_quotient w count)
           | PyInt i \<Rightarrow> if 2 ^ 1024 \<le> \<bar>float_quotient w count\<bar> then Inl OverflowError
                        else Inr (float_quotient w count))"

subsection \<open>Facts about the rounding\<close>

lemma floor_log2_eq:
  assumes "2 powr of_int e \<le> x" "x < 2 powr of_int (e + 1)"
  shows "\<lfloor>log 2 x\<rfloor> = e"
proof -
  have pos: "0 < x" using assms(1) powr_gt_zero[of 2 "of_int e"] by linarith
  have "of_int e \<le> log 2 x" using assms(1) pos by (simp add: le_log_iff)
  moreover have "log 2 x < of_int e + 1" using assms(2) pos by (simp add: log_less_iff)
  ultimately show ?thesis by (simp add: floor_eq_iff)
qed

lemma double_exponent_eq:
  assumes "- 1022 \<le> e" "2 powr of_int e \<le> \<bar>x\<bar>" "\<bar>x\<bar> < 2 powr of_int (e + 1)"
  shows "double_exponent x = e"
  unfolding double_exponent_def floor_log2_eq[OF assms(2,3)] using assms(1) by simp

lemma round_half_even_of_int: "round_half_even (of_int n) = n"
  by (simp add: round_half_even_def)

lemma round_half_even_bound: "\<bar>of_int (round_half_even q) - q\<bar> \<le> 1 / 2"
  unfolding round_half_even_def Let_def
  by (auto simp: abs_le_iff)

text \<open>
  A quotient of magnitude below \<open>2^1023\<close> rounds to a double, so dividing an \<open>int\<close> of
  that magnitude, or any \<open>float\<close>, by a positive count returns.
\<close>

lemma round_double_bound:
  assumes "\<bar>x\<bar> < 2 ^ 1023"
  shows "\<bar>round_double x\<bar> < 2 ^ 1024"
proof (cases "x = 0")
  case True
  then show ?thesis by (simp add: round_double_def)
next
  case False
  define e where "e = double_exponent x"
  define ulp :: real where "ulp = 2 powr of_int (e - 52)"
  define N where "N = round_half_even (x / ulp)"
  have pos: "0 < \<bar>x\<bar>" using False by simp
  have "\<bar>x\<bar> < 2 powr 1023" using assms by simp
  then have "log 2 \<bar>x\<bar> < 1023" using pos by (simp add: log_less_iff)
  then have "\<lfloor>log 2 \<bar>x\<bar>\<rfloor> \<le> 1022" by (simp add: floor_le_iff)
  then have e: "e \<le> 1022" unfolding e_def double_exponent_def by simp
  have up: "0 < ulp" unfolding ulp_def by simp
  have "ulp \<le> 2 powr 970" unfolding ulp_def using e by (intro powr_mono) simp_all
  then have ul: "ulp \<le> 2 ^ 970" by simp
  have "\<bar>of_int N - x / ulp\<bar> \<le> 1 / 2" unfolding N_def by (rule round_half_even_bound)
  then have "\<bar>of_int N - x / ulp\<bar> * ulp \<le> 1 / 2 * ulp"
    using up by (intro mult_right_mono) simp_all
  moreover have "\<bar>of_int N - x / ulp\<bar> * ulp = \<bar>of_int N * ulp - x\<bar>"
  proof -
    have "\<bar>of_int N - x / ulp\<bar> * ulp = \<bar>(of_int N - x / ulp) * ulp\<bar>"
      using up by (simp add: abs_mult)
    also have "(of_int N - x / ulp) * ulp = of_int N * ulp - x"
      using up by (simp add: left_diff_distrib)
    finally show ?thesis .
  qed
  ultimately have "\<bar>of_int N * ulp - x\<bar> \<le> ulp / 2" by simp
  then have "\<bar>of_int N * ulp\<bar> \<le> \<bar>x\<bar> + ulp / 2" by linarith
  also have "\<dots> < 2 ^ 1023 + 2 ^ 970" using assms ul up by linarith
  also have "\<dots> \<le> (2::real) ^ 1024" by simp
  finally have "\<bar>of_int N * ulp\<bar> < 2 ^ 1024" .
  moreover have "round_double x = of_int N * ulp"
    using False by (simp add: round_double_def Let_def N_def ulp_def e_def)
  ultimately show ?thesis by simp
qed

lemma py_truediv_returns:
  assumes "0 < count"
    and "case w of PyInt i \<Rightarrow> \<bar>i\<bar> < 2 ^ 1023 | PyFloat x \<Rightarrow> True"
  shows "py_truediv w count = Inr (float_quotient w count)"
proof (cases w)
  case (PyFloat x)
  then show ?thesis using assms(1) by (simp add: py_truediv_def)
next
  case (PyInt i)
  then have "\<bar>real_of_int i\<bar> < 2 ^ 1023" using assms(2)
    by (metis (mono_tags) of_int_abs of_int_less_numeral_power_cancel_iff py_number.simps(5))
  moreover have "\<bar>real_of_int i / real count\<bar> \<le> \<bar>real_of_int i\<bar>"
  proof -
    have "1 \<le> real count" using assms(1) by simp
    then have "\<bar>real_of_int i\<bar> / real count \<le> \<bar>real_of_int i\<bar> / 1"
      by (intro divide_left_mono) simp_all
    then show ?thesis by simp
  qed
  ultimately have "\<bar>real_of_int i / real count\<bar> < 2 ^ 1023" by linarith
  from round_double_bound[OF this] show ?thesis
    using assms(1) PyInt by (simp add: py_truediv_def float_quotient_def number_value_def)
qed

text \<open>
  The \<open>int\<close> \<open>2^1024\<close> divided by 1 raises, as do the larger ones.
\<close>

lemma py_truediv_overflow: "py_truediv (PyInt (2 ^ 1024)) 1 = Inl OverflowError"
proof -
  have e: "double_exponent (2 ^ 1024) = 1024"
    by (rule double_exponent_eq) (simp_all)
  have "round_double (2 ^ 1024) = 2 ^ 1024"
    unfolding round_double_def e Let_def
    by (simp add: round_half_even_def)
  then show ?thesis by (simp add: py_truediv_def float_quotient_def number_value_def)
qed

subsection \<open>The greedy loop\<close>

text \<open>
  The coverage graph as \<open>build_coverage_graph\<close> builds it: the node names in insertion
  order (the iteration order of \<open>G.nodes\<close>), the attributes of each node, and the
  neighbours of each node. A candidate node carries its weight and its site data, a
  target node its point data.
\<close>

datatype 'd node_attrs =
  CandidateNode (weight: py_number) (node_data: 'd)
| TargetNode (node_data: 'd)

record 'd graph =
  node_names :: "string list"
  node_attrs :: "string \<Rightarrow> 'd node_attrs"
  neighbors :: "string \<Rightarrow> string list"

definition is_target :: "'d node_attrs \<Rightarrow> bool" where
  "is_target d = (case d of TargetNode _ \<Rightarrow> True | CandidateNode _ _ \<Rightarrow> False)"

definition is_candidate :: "'d node_attrs \<Rightarrow> bool" where
  "is_candidate d = (case d of CandidateNode _ _ \<Rightarrow> True | TargetNode _ \<Rightarrow> False)"

text \<open>
  The variables of one pass of the inner \<open>for cand in candidates\<close> loop.
  \<open>best_ratio = None\<close> stands for the initial \<open>float('inf')\<close>, above every double. The
  loop reads the weight only of the nodes in \<open>candidates\<close>, which are candidate nodes.
  An exception of the division leaves the loop and the call.
\<close>

record round_state =
  best_cand :: "string option"
  best_ratio :: "real option"
  best_new_cover :: "string set"
  made_progress :: bool

definition ratio_less :: "real \<Rightarrow> real option \<Rightarrow> bool" where
  "ratio_less ratio best = (case best of None \<Rightarrow> True | Some b \<Rightarrow> ratio < b)"

fun candidate_scan ::
  "'d graph \<Rightarrow> string set \<Rightarrow> string list \<Rightarrow> string set \<Rightarrow> string list \<Rightarrow> round_state
     \<Rightarrow> py_error + round_state" where
  "candidate_scan G universe selected_candidates covered [] st = Inr st"
| "candidate_scan G universe selected_candidates covered (cand # rest) st =
     (if cand \<in> set selected_candidates
      then candidate_scan G universe selected_candidates covered rest st
      else
        (let nbrs = set (neighbors G cand) \<inter> universe;
             new_cover = nbrs - covered;
             count = card new_cover
         in if count > 0
            then
              (case py_truediv (weight (node_attrs G cand)) count of
                 Inl e \<Rightarrow> Inl e
               | Inr ratio \<Rightarrow>
                   if ratio_less ratio (best_ratio st)
                   then candidate_scan G universe selected_candidates covered rest
                          \<lparr>best_cand = Some cand, best_ratio = Some ratio,
                           best_new_cover = new_cover, made_progress = True\<rparr>
                   else candidate_scan G universe selected_candidates covered rest st)
            else candidate_scan G universe selected_candidates covered rest st))"

definition optimize_round ::
  "'d graph \<Rightarrow> string set \<Rightarrow> string list \<Rightarrow> string list \<Rightarrow> string set
     \<Rightarrow> py_error + round_state" where
  "optimize_round G universe candidates selected_candidates covered =
     candidate_scan G universe selected_candidates covered candidates
       \<lparr>best_cand = None, best_ratio = None, best_new_cover = {}, made_progress = False\<rparr>"

text \<open>
  The targets a candidate would newly cover, the candidates a round considers (not yet
  selected, covering at least one uncovered target), their cost-effectiveness ratio as
  the division computes it, whether that division raises, and what it means for
  position \<open>i\<close> of the iteration order to hold the first candidate of minimal ratio.
\<close>

definition new_cover_of :: "'d graph \<Rightarrow> string set \<Rightarrow> string set \<Rightarrow> string \<Rightarrow> string set" where
  "new_cover_of G universe covered cand = set (neighbors G cand) \<inter> universe - covered"

definition eligible :: "'d graph \<Rightarrow> string set \<Rightarrow> string list \<Rightarrow> string set \<Rightarrow> string \<Rightarrow> bool" where
  "eligible G universe sel covered cand \<longleftrightarrow>
     cand \<notin> set sel \<and> 0 < card (new_cover_of G universe covered cand)"

definition cost_ratio :: "'d graph \<Rightarrow> string set \<Rightarrow> string set \<Rightarrow> string \<Rightarrow> real" where
  "cost_ratio G universe covered cand =
     float_quotient (weight (node_attrs G cand)) (card (new_cover_of G universe covered cand))"

definition ratio_raises :: "'d graph \<Rightarrow> string set \<Rightarrow> string set \<Rightarrow> string \<Rightarrow> bool" where
  "ratio_raises G universe covered cand \<longleftrightarrow>
     py_truediv (weight (node_attrs G cand)) (card (new_cover_of G universe covered cand))
       = Inl OverflowError"

definition first_minimum ::
  "'d graph \<Rightarrow> string set \<Rightarrow> string list \<Rightarrow> string set \<Rightarrow> string list \<Rightarrow> nat \<Rightarrow> bool" where
  "first_minimum G universe sel covered cands i \<longleftrightarrow>
     i < length cands \<and> eligible G universe sel covered (cands ! i)
     \<and> (\<forall>j<length cands. eligible G universe sel covered (cands ! j)
           \<longrightarrow> cost_ratio G universe covered (cands ! i) \<le> cost_ratio G universe covered (cands ! j))
     \<and> (\<forall>j<i. eligible G universe sel covered (cands ! j)
           \<longrightarrow> cost_ratio G universe covered (cands ! i) < cost_ratio G universe covered (cands ! j))"

text \<open>
  The effect of one iteration of the inner loop on its variables, when its division
  returns.
\<close>

definition scan_step ::
  "'d graph \<Rightarrow> string set \<Rightarrow> string list \<Rightarrow> string set \<Rightarrow> string \<Rightarrow> round_state
     \<Rightarrow> round_state" where
  "scan_step G universe sel covered c st =
     (if eligible G universe sel covered c \<and> ratio_less (cost_ratio G universe covered c) (best_ratio st)
      then \<lparr>best_cand = Some c, best_ratio = Some (cost_ratio G universe covered c),
            best_new_cover = new_cover_of G universe covered c, made_progress = True\<rparr>
      else st)"

lemma py_truediv_cases:
  assumes "0 < count"
  shows "py_truediv w count = Inl OverflowError \<or> py_truediv w count = Inr (float_quotient w count)"
  using assms by (cases w) (simp_all add: py_truediv_def)

lemma candidate_scan_Cons:
  "candidate_scan G universe sel covered (cand # rest) st
     = (if eligible G universe sel covered cand \<and> ratio_raises G universe covered cand
        then Inl OverflowError
        else candidate_scan G universe sel covered rest (scan_step G universe sel covered cand st))"
proof (cases "eligible G universe sel covered cand")
  case False
  then have "scan_step G universe sel covered cand st = st" by (simp add: scan_step_def)
  moreover have "candidate_scan G universe sel covered (cand # rest) st
                   = candidate_scan G universe sel covered rest st"
  proof (cases "cand \<in> set sel")
    case True
    then show ?thesis by simp
  next
    case ns: False
    then have "\<not> 0 < card (set (neighbors G cand) \<inter> universe - covered)"
      using False by (simp add: eligible_def new_cover_of_def)
    then show ?thesis unfolding candidate_scan.simps Let_def
      using ns by (simp only: if_False simp_thms)
  qed
  ultimately show ?thesis using False by simp
next
  case True
  then have ns: "cand \<notin> set sel" and pos: "0 < card (set (neighbors G cand) \<inter> universe - covered)"
    by (simp_all add: eligible_def new_cover_of_def)
  let ?n = "card (set (neighbors G cand) \<inter> universe - covered)"
  let ?w = "weight (node_attrs G cand)"
  from py_truediv_cases[OF pos, of ?w] show ?thesis
  proof
    assume r: "py_truediv ?w ?n = Inl OverflowError"
    then have "ratio_raises G universe covered cand" by (simp add: ratio_raises_def new_cover_of_def)
    moreover have "candidate_scan G universe sel covered (cand # rest) st = Inl OverflowError"
      unfolding candidate_scan.simps Let_def r using ns pos by (simp only: if_True if_False sum.case)
    ultimately show ?thesis using True by simp
  next
    assume r: "py_truediv ?w ?n = Inr (float_quotient ?w ?n)"
    then have nr: "\<not> ratio_raises G universe covered cand" by (simp add: ratio_raises_def new_cover_of_def)
    have cr: "cost_ratio G universe covered cand = float_quotient ?w ?n"
      by (simp add: cost_ratio_def new_cover_of_def)
    have "candidate_scan G universe sel covered (cand # rest) st
            = candidate_scan G universe sel covered rest (scan_step G universe sel covered cand st)"
    proof (cases "ratio_less (float_quotient ?w ?n) (best_ratio st)")
      case rl: True
      have "scan_step G universe sel covered cand st
              = \<lparr>best_cand = Some cand, best_ratio = Some (float_quotient ?w ?n),
                 best_new_cover = set (neighbors G cand) \<inter> universe - covered, made_progress = True\<rparr>"
        using True rl by (simp add: scan_step_def cr new_cover_of_def)
      then show ?thesis
        unfolding candidate_scan.simps Let_def r using ns pos rl by (simp only: if_True if_False sum.case)
    next
      case rl: False
      have "scan_step G universe sel covered cand st = st"
        using rl by (simp add: scan_step_def cr)
      then show ?thesis
        unfolding candidate_scan.simps Let_def r using ns pos rl by (simp only: if_True if_False sum.case)
    qed
    then show ?thesis using nr by simp
  qed
qed

lemma candidate_scan_snoc:
  "candidate_scan G universe sel covered (cands @ [c]) st
     = (case candidate_scan G universe sel covered cands st of
          Inl e \<Rightarrow> Inl e
        | Inr s \<Rightarrow> if eligible G universe sel covered c \<and> ratio_raises G universe covered c
                   then Inl OverflowError
                   else Inr (scan_step G universe sel covered c s))"
proof (induction cands arbitrary: st)
  case Nil
  show ?case unfolding append_Nil candidate_scan_Cons by simp
next
  case (Cons a cands)
  show ?case unfolding append_Cons candidate_scan_Cons by (simp add: Cons.IH)
qed

text \<open>
  What holds of the variables after the candidates \<open>cands\<close> have been scanned, and of the
  outcome of the scan: it raises exactly when the division raises for a candidate it
  considers.
\<close>

definition round_ok ::
  "'d graph \<Rightarrow> string set \<Rightarrow> string list \<Rightarrow> string set \<Rightarrow> string list \<Rightarrow> round_state \<Rightarrow> bool" where
  "round_ok G universe sel covered cands st \<longleftrightarrow>
     (if made_progress st
      then \<exists>i. first_minimum G universe sel covered cands i
             \<and> best_cand st = Some (cands ! i)
             \<and> best_ratio st = Some (cost_ratio G universe covered (cands ! i))
             \<and> best_new_cover st = new_cover_of G universe covered (cands ! i)
      else best_cand st = None \<and> best_ratio st = None
             \<and> (\<forall>c\<in>set cands. \<not> eligible G universe sel covered c))"

definition scan_ok ::
  "'d graph \<Rightarrow> string set \<Rightarrow> string list \<Rightarrow> string set \<Rightarrow> string list
     \<Rightarrow> py_error + round_state \<Rightarrow> bool" where
  "scan_ok G universe sel covered cands res \<longleftrightarrow>
     (case res of
        Inl e \<Rightarrow> e = OverflowError
                 \<and> (\<exists>c\<in>set cands. eligible G universe sel covered c \<and> ratio_raises G universe covered c)
      | Inr st \<Rightarrow> (\<forall>c\<in>set cands. \<not> (eligible G universe sel covered c \<and> ratio_raises G universe covered c))
                  \<and> round_ok G universe sel covered cands st)"

lemma first_minimum_keep:
  assumes "first_minimum G U sel cov cands i"
    and "eligible G U sel cov c \<longrightarrow> cost_ratio G U cov (cands ! i) \<le> cost_ratio G U cov c"
  shows "first_minimum G U sel cov (cands @ [c]) i"
  using assms unfolding first_minimum_def
  by (auto simp: nth_append less_Suc_eq)

lemma first_minimum_new:
  assumes "eligible G U sel cov c"
    and "\<forall>j<length cands. eligible G U sel cov (cands ! j) \<longrightarrow> cost_ratio G U cov c < cost_ratio G U cov (cands ! j)"
  shows "first_minimum G U sel cov (cands @ [c]) (length cands)"
  using assms unfolding first_minimum_def
  by (auto simp: nth_append less_Suc_eq)

lemma round_ok_step:
  assumes "round_ok G U sel cov cands st"
  shows "round_ok G U sel cov (cands @ [c]) (scan_step G U sel cov c st)"
proof (cases "eligible G U sel cov c \<and> ratio_less (cost_ratio G U cov c) (best_ratio st)")
  case True
  then have el: "eligible G U sel cov c" and rl: "ratio_less (cost_ratio G U cov c) (best_ratio st)"
    by simp_all
  have "\<forall>j<length cands. eligible G U sel cov (cands ! j) \<longrightarrow> cost_ratio G U cov c < cost_ratio G U cov (cands ! j)"
  proof (cases "made_progress st")
    case True
    then obtain i where i: "first_minimum G U sel cov cands i"
      and br: "best_ratio st = Some (cost_ratio G U cov (cands ! i))"
      using assms by (auto simp: round_ok_def)
    from rl br have "cost_ratio G U cov c < cost_ratio G U cov (cands ! i)"
      by (simp add: ratio_less_def)
    then show ?thesis using i unfolding first_minimum_def by fastforce
  next
    case False
    then have "\<forall>c\<in>set cands. \<not> eligible G U sel cov c" using assms by (simp add: round_ok_def)
    then show ?thesis by simp
  qed
  from first_minimum_new[OF el this] True show ?thesis
    by (auto simp: round_ok_def scan_step_def)
next
  case False
  then have same: "scan_step G U sel cov c st = st"
    unfolding scan_step_def by (simp only: if_False)
  show ?thesis
  proof (cases "made_progress st")
    case True
    then obtain i where i: "first_minimum G U sel cov cands i"
      and bc: "best_cand st = Some (cands ! i)"
      and br: "best_ratio st = Some (cost_ratio G U cov (cands ! i))"
      and bn: "best_new_cover st = new_cover_of G U cov (cands ! i)"
      using assms by (auto simp: round_ok_def)
    have "eligible G U sel cov c \<longrightarrow> cost_ratio G U cov (cands ! i) \<le> cost_ratio G U cov c"
      using False br by (auto simp: ratio_less_def)
    from first_minimum_keep[OF i this] have fm: "first_minimum G U sel cov (cands @ [c]) i" .
    have ilt: "i < length cands" using i by (simp add: first_minimum_def)
    show ?thesis unfolding same round_ok_def
      using True fm bc br bn ilt by (auto simp: nth_append)
  next
    case np: False
    then have "best_ratio st = None" using assms by (simp add: round_ok_def)
    then have "\<not> eligible G U sel cov c" using False by (simp add: ratio_less_def)
    then show ?thesis unfolding same using assms np by (auto simp: round_ok_def)
  qed
qed

lemma optimize_round_ok:
  "scan_ok G U sel cov cands (optimize_round G U cands sel cov)"
  unfolding optimize_round_def
proof (induction cands rule: rev_induct)
  case Nil
  show ?case by (simp add: scan_ok_def round_ok_def)
next
  case (snoc c cands)
  let ?init = "\<lparr>best_cand = None, best_ratio = None, best_new_cover = {}, made_progress = False\<rparr>"
  show ?case
  proof (cases "candidate_scan G U sel cov cands ?init")
    case (Inl e)
    then show ?thesis using snoc.IH unfolding candidate_scan_snoc
      by (auto simp: scan_ok_def)
  next
    case (Inr s)
    then have nr: "\<forall>c\<in>set cands. \<not> (eligible G U sel cov c \<and> ratio_raises G U cov c)"
      and ok: "round_ok G U sel cov cands s"
      using snoc.IH by (simp_all add: scan_ok_def)
    show ?thesis
    proof (cases "eligible G U sel cov c \<and> ratio_raises G U cov c")
      case True
      then show ?thesis unfolding candidate_scan_snoc Inr by (auto simp: scan_ok_def)
    next
      case False
      then show ?thesis unfolding candidate_scan_snoc Inr
        using nr round_ok_step[OF ok, of c] by (auto simp: scan_ok_def)
    qed
  qed
qed

lemma optimize_round_cover:
  assumes "optimize_round G universe cands sel covered = Inr st" and "made_progress st"
  shows "best_new_cover st \<noteq> {} \<and> best_new_cover st \<subseteq> universe - covered"
proof -
  from optimize_round_ok[of G universe sel covered cands] assms(1)
  have "round_ok G universe sel covered cands st" by (simp add: scan_ok_def)
  with assms(2) obtain i where fm: "first_minimum G universe sel covered cands i"
    and bn: "best_new_cover st = new_cover_of G universe covered (cands ! i)"
    by (auto simp: round_ok_def)
  from fm have "0 < card (new_cover_of G universe covered (cands ! i))"
    by (simp add: first_minimum_def eligible_def)
  then have "new_cover_of G universe covered (cands ! i) \<noteq> {}" by (auto simp: card_gt_0_iff)
  moreover have "new_cover_of G universe covered (cands ! i) \<subseteq> universe - covered"
    by (auto simp: new_cover_of_def)
  ultimately show ?thesis unfolding bn by simp
qed

text \<open>
  The \<open>while\<close> loop. When \<open>made_progress\<close> is set, \<open>best_cand\<close> holds a candidate
  (lemma \<open>optimize_round_ok\<close>), so the case \<open>None\<close> is never taken. The loop
  terminates because every round that continues covers at least one more target.
\<close>

function optimize_loop ::
  "'d graph \<Rightarrow> string set \<Rightarrow> string list \<Rightarrow> string list \<Rightarrow> string set
     \<Rightarrow> py_error + string list \<times> string set" where
  "optimize_loop G universe candidates selected_candidates covered =
     (if card covered < card universe
      then
        (case optimize_round G universe candidates selected_candidates covered of
           Inl e \<Rightarrow> Inl e
         | Inr st \<Rightarrow>
             if \<not> made_progress st then Inr (selected_candidates, covered)
             else
               (case best_cand st of
                  None \<Rightarrow> Inr (selected_candidates, covered)
                | Some b \<Rightarrow>
                    optimize_loop G universe candidates (selected_candidates @ [b])
                      (covered \<union> best_new_cover st)))
      else Inr (selected_candidates, covered))"
  by pat_completeness auto
termination
proof (relation "measure (\<lambda>(G, universe, candidates, selected_candidates, covered).
                   card (universe - covered))")
  show "wf (measure (\<lambda>(G :: 'd graph, universe, candidates :: string list,
              selected_candidates :: string list, covered). card (universe - covered)))"
    by simp
next
  fix G :: "'d graph" and universe candidates selected_candidates covered st b
  assume lt: "card covered < card universe"
    and st: "optimize_round G universe candidates selected_candidates covered = Inr st"
    and mp: "\<not> \<not> made_progress st"
  have fin: "finite universe" using lt by (metis card.infinite not_less_zero)
  from optimize_round_cover[OF st] mp
  have ne: "best_new_cover st \<noteq> {}" and sub: "best_new_cover st \<subseteq> universe - covered"
    by simp_all
  have "universe - (covered \<union> best_new_cover st) \<subset> universe - covered"
    using ne sub by blast
  then have "card (universe - (covered \<union> best_new_cover st)) < card (universe - covered)"
    using fin by (intro psubset_card_mono) auto
  then show "((G, universe, candidates, selected_candidates @ [b], covered \<union> best_new_cover st),
              (G, universe, candidates, selected_candidates, covered))
             \<in> measure (\<lambda>(G, universe, candidates, selected_candidates, covered).
                   card (universe - covered))"
    by simp
qed

text \<open>
  The returned coverage fraction is a value that no comparison of the program reads; it
  is the real quotient, like the other floats of the model.
\<close>

definition optimize_sites :: "'d graph \<Rightarrow> py_error + 'd list \<times> real" where
  "optimize_sites G =
     (let universe = set (filter (\<lambda>n. is_target (node_attrs G n)) (node_names G));
          candidates = filter (\<lambda>n. is_candidate (node_attrs G n)) (node_names G)
      in case optimize_loop G universe candidates [] {} of
           Inl e \<Rightarrow> Inl e
         | Inr (selected_candidates, covered) \<Rightarrow>
             Inr (map (\<lambda>n. node_data (node_attrs G n)) selected_candidates,
                  if universe \<noteq> {} then real (card covered) / real (card universe) else 0))"

subsection \<open>The claims about the greedy loop\<close>

definition target_universe :: "'d graph \<Rightarrow> string set" where
  "target_universe G = set (filter (\<lambda>n. is_target (node_attrs G n)) (node_names G))"

definition candidate_list :: "'d graph \<Rightarrow> string list" where
  "candidate_list G = filter (\<lambda>n. is_candidate (node_attrs G n)) (node_names G)"

definition covered_by :: "'d graph \<Rightarrow> string set \<Rightarrow> string list \<Rightarrow> string set" where
  "covered_by G universe sel = (\<Union>c\<in>set sel. set (neighbors G c) \<inter> universe)"

definition selected_nodes :: "'d graph \<Rightarrow> string list" where
  "selected_nodes G =
     (case optimize_loop G (target_universe G) (candidate_list G) [] {} of
        Inl e \<Rightarrow> []
      | Inr (sel, cov) \<Rightarrow> sel)"

text \<open>
  The weights for which no division of the loop overflows: every \<open>float\<close>, and the
  \<open>int\<close>s of magnitude below \<open>2^1023\<close>.
\<close>

definition weight_in_range :: "py_number \<Rightarrow> bool" where
  "weight_in_range w = (case w of PyInt i \<Rightarrow> \<bar>i\<bar> < 2 ^ 1023 | PyFloat x \<Rightarrow> True)"

abbreviation example_graph :: "nat graph" where
  "example_graph \<equiv>
     \<lparr>node_names = [''cand_0'', ''cand_1'', ''cand_2'', ''tgt_0'', ''tgt_1'', ''tgt_2''],
      node_attrs = (\<lambda>n. if n = ''cand_0'' then CandidateNode (PyInt 1) 0
                         else if n = ''cand_1'' then CandidateNode (PyInt 2) 1
                         else if n = ''cand_2'' then CandidateNode (PyInt 2) 2
                         else if n = ''tgt_0'' then TargetNode 10
                         else if n = ''tgt_1'' then TargetNode 11
                         else TargetNode 12),
      neighbors = (\<lambda>n. if n = ''cand_0'' then [''tgt_0'']
                        else if n = ''cand_1'' then [''tgt_0'', ''tgt_1'']
                        else if n = ''cand_2'' then [''tgt_1'', ''tgt_2'']
                        else if n = ''tgt_0'' then [''cand_0'', ''cand_1'']
                        else if n = ''tgt_1'' then [''cand_1'', ''cand_2'']
                        else if n = ''tgt_2'' then [''cand_2'']
                        else [])\<rparr>"

text \<open>
  Two candidates whose real quotients differ and whose computed quotients are equal: the
  first has weight 1.0 and covers three targets, the second has weight
  0.3333333333333333, the double \<open>6004799503160661 / 2^54\<close> just below one third, and
  covers one other target. \<open>1.0 / 3\<close> rounds to that same double, so the round sees a
  tie and keeps the first candidate.
\<close>

abbreviation rounding_tie_graph :: "nat graph" where
  "rounding_tie_graph \<equiv>
     \<lparr>node_names = [''cand_0'', ''cand_1'', ''tgt_0'', ''tgt_1'', ''tgt_2'', ''tgt_3''],
      node_attrs = (\<lambda>n. if n = ''cand_0'' then CandidateNode (PyFloat 1) 0
                         else if n = ''cand_1''
                         then CandidateNode (PyFloat (6004799503160661 / 18014398509481984)) 1
                         else if n = ''tgt_0'' then TargetNode 10
                         else if n = ''tgt_1'' then TargetNode 11
                         else if n = ''tgt_2'' then TargetNode 12
                         else TargetNode 13),
      neighbors = (\<lambda>n. if n = ''cand_0'' then [''tgt_0'', ''tgt_1'', ''tgt_2'']
                        else if n = ''cand_1'' then [''tgt_3'']
                        else if n = ''tgt_3'' then [''cand_1'']
                        else if n = ''tgt_0'' \<or> n = ''tgt_1'' \<or> n = ''tgt_2'' then [''cand_0'']
                        else [])\<rparr>"

lemma round_double_one: "round_double 1 = 1"
proof -
  have e: "double_exponent 1 = 0"
    by (rule double_exponent_eq) simp_all
  show ?thesis unfolding round_double_def e Let_def
    by (simp add: powr_minus round_half_even_def)
qed

lemma round_double_two: "round_double 2 = 2"
proof -
  have e: "double_exponent 2 = 1"
    by (rule double_exponent_eq) simp_all
  show ?thesis unfolding round_double_def e Let_def
    by (simp add: powr_minus round_half_even_def)
qed

lemma round_double_int_tie: "round_double 9007199254740993 = 9007199254740992"
proof -
  have e: "double_exponent 9007199254740993 = 53"
    by (rule double_exponent_eq) simp_all
  show ?thesis unfolding round_double_def e Let_def
    by (simp add: round_half_even_def)
qed

lemma round_double_third: "round_double (1 / 3) = 6004799503160661 / 18014398509481984"
proof -
  have e: "double_exponent (1 / 3) = - 2"
    by (rule double_exponent_eq) (simp_all add: powr_minus)
  show ?thesis
    unfolding round_double_def e Let_def
    by (simp add: powr_minus round_half_even_def)
qed

lemma round_double_third_double:
  "round_double (6004799503160661 / 18014398509481984) = 6004799503160661 / 18014398509481984"
proof -
  have e: "double_exponent (6004799503160661 / 18014398509481984) = - 2"
    by (rule double_exponent_eq) (simp_all add: powr_minus)
  show ?thesis
    unfolding round_double_def e Let_def
    by (simp add: powr_minus round_half_even_def)
qed

lemma ex_universe: "target_universe example_graph = {''tgt_0'', ''tgt_1'', ''tgt_2''}"
  by (simp add: target_universe_def is_target_def)

lemma ex_candidates: "candidate_list example_graph = [''cand_0'', ''cand_1'', ''cand_2'']"
  by (simp add: candidate_list_def is_candidate_def)

lemma ex_sites: "optimize_sites example_graph = Inr ([0, 2], 1)"
  by (simp add: optimize_sites_def is_target_def is_candidate_def optimize_round_def ratio_less_def
      Let_def py_truediv_def float_quotient_def number_value_def round_double_one round_double_two)

lemma tie_universe: "target_universe rounding_tie_graph = {''tgt_0'', ''tgt_1'', ''tgt_2'', ''tgt_3''}"
  by (simp add: target_universe_def is_target_def)

lemma tie_candidates: "candidate_list rounding_tie_graph = [''cand_0'', ''cand_1'']"
  by (simp add: candidate_list_def is_candidate_def)

lemma tie_ratios:
  "cost_ratio rounding_tie_graph {''tgt_0'', ''tgt_1'', ''tgt_2'', ''tgt_3''} {} ''cand_0''
     = 6004799503160661 / 18014398509481984"
  "cost_ratio rounding_tie_graph {''tgt_0'', ''tgt_1'', ''tgt_2'', ''tgt_3''} {} ''cand_1''
     = 6004799503160661 / 18014398509481984"
  by (simp_all add: cost_ratio_def new_cover_of_def float_quotient_def number_value_def
      round_double_third round_double_third_double)

lemma tie_sites: "optimize_sites rounding_tie_graph = Inr ([0, 1], 1)"
  by (simp add: optimize_sites_def is_target_def is_candidate_def optimize_round_def ratio_less_def
      Let_def py_truediv_def float_quotient_def number_value_def
      round_double_third round_double_third_double)

lemma optimize_loop_step:
  assumes "card covered < card universe"
  shows "optimize_loop G universe candidates sel covered =
           (case optimize_round G universe candidates sel covered of
              Inl e \<Rightarrow> Inl e
            | Inr st \<Rightarrow>
                if \<not> made_progress st then Inr (sel, covered)
                else (case best_cand st of
                        None \<Rightarrow> Inr (sel, covered)
                      | Some b \<Rightarrow> optimize_loop G universe candidates (sel @ [b])
                                   (covered \<union> best_new_cover st)))"
  using assms by (subst optimize_loop.simps) simp




text \<open>
  On the graph of the rounding tie the position the round continues with is the first
  one.
\<close>

lemma tie_first_minimum:
  "first_minimum rounding_tie_graph {''tgt_0'', ''tgt_1'', ''tgt_2'', ''tgt_3''} [] {}
     [''cand_0'', ''cand_1''] i \<longleftrightarrow> i = 0"
  unfolding first_minimum_def
  by (auto simp: tie_ratios eligible_def new_cover_of_def less_Suc_eq nth_Cons')

lemma optimize_loop_covered_by:
  assumes "covered = covered_by G universe sel"
    and "optimize_loop G universe candidates sel covered = Inr (sel', covered')"
  shows "covered' = covered_by G universe sel'"
  using assms
proof (induction G universe candidates sel covered rule: optimize_loop.induct)
  case (1 G universe candidates sel covered)
  show ?case
  proof (cases "card covered < card universe")
    case False
    then have "optimize_loop G universe candidates sel covered = Inr (sel, covered)"
      by (subst optimize_loop.simps) simp
    with "1.prems" show ?thesis by simp
  next
    case lt: True
    show ?thesis
    proof (cases "optimize_round G universe candidates sel covered")
      case (Inl e)
      then have "optimize_loop G universe candidates sel covered = Inl e"
        unfolding optimize_loop_step[OF lt] by simp
      with "1.prems"(2) show ?thesis by simp
    next
      case (Inr st)
      with optimize_round_ok[of G universe sel covered candidates]
      have ok: "round_ok G universe sel covered candidates st" by (simp add: scan_ok_def)
      show ?thesis
      proof (cases "made_progress st")
        case False
        then have "optimize_loop G universe candidates sel covered = Inr (sel, covered)"
          unfolding optimize_loop_step[OF lt] Inr by simp
        with "1.prems" show ?thesis by simp
      next
        case mp: True
        from mp ok obtain i where bc: "best_cand st = Some (candidates ! i)"
          and bn: "best_new_cover st = new_cover_of G universe covered (candidates ! i)"
          by (auto simp: round_ok_def)
        let ?b = "candidates ! i"
        have step: "optimize_loop G universe candidates sel covered
                      = optimize_loop G universe candidates (sel @ [?b]) (covered \<union> best_new_cover st)"
          unfolding optimize_loop_step[OF lt] Inr using mp bc by simp
        have "covered \<union> new_cover_of G universe covered ?b = covered_by G universe (sel @ [?b])"
          using "1.prems"(1) by (auto simp: covered_by_def new_cover_of_def)
        then have inv: "covered \<union> best_new_cover st = covered_by G universe (sel @ [?b])"
          by (simp only: bn)
        have mp': "\<not> \<not> made_progress st" using mp by simp
        show ?thesis
          using "1.IH"[OF lt Inr mp' bc inv] "1.prems"(2) step by simp
      qed
    qed
  qed
qed

lemma optimize_loop_empty_universe:
  "optimize_loop G {} candidates sel covered = Inr (sel, covered)"
  by (subst optimize_loop.simps) simp

lemma optimize_loop_returns:
  assumes "\<forall>c\<in>set candidates. weight_in_range (weight (node_attrs G c))"
  shows "\<exists>r. optimize_loop G universe candidates sel covered = Inr r"
  using assms
proof (induction G universe candidates sel covered rule: optimize_loop.induct)
  case (1 G universe candidates sel covered)
  show ?case
  proof (cases "card covered < card universe")
    case False
    then show ?thesis by (subst optimize_loop.simps) simp
  next
    case lt: True
    have nr: "\<not> (eligible G universe sel covered c \<and> ratio_raises G universe covered c)"
      if c: "c \<in> set candidates" for c
    proof
      assume a: "eligible G universe sel covered c \<and> ratio_raises G universe covered c"
      then have pos: "0 < card (new_cover_of G universe covered c)" by (simp add: eligible_def)
      have "case weight (node_attrs G c) of PyInt i \<Rightarrow> \<bar>i\<bar> < 2 ^ 1023 | PyFloat x \<Rightarrow> True"
        using "1.prems" c by (simp add: weight_in_range_def)
      from py_truediv_returns[OF pos this] a show False by (simp add: ratio_raises_def)
    qed
    obtain st where st: "optimize_round G universe candidates sel covered = Inr st"
      using optimize_round_ok[of G universe sel covered candidates] nr
      by (cases "optimize_round G universe candidates sel covered") (auto simp: scan_ok_def)
    show ?thesis
    proof (cases "made_progress st")
      case False
      then show ?thesis unfolding optimize_loop_step[OF lt] st by simp
    next
      case mp: True
      show ?thesis
      proof (cases "best_cand st")
        case None
        then show ?thesis unfolding optimize_loop_step[OF lt] st by simp
      next
        case (Some b)
        have mp': "\<not> \<not> made_progress st" using mp by simp
        from "1.IH"[OF lt st mp' Some "1.prems"]
        show ?thesis unfolding optimize_loop_step[OF lt] st using mp Some by simp
      qed
    qed
  qed
qed

text \<open>
  C7. On a graph without target nodes \<open>optimize_sites\<close> returns the empty selection and
  the coverage fraction 0. When there are targets, a result it returns holds the data of
  the nodes the greedy loop selected, and as coverage fraction the number of targets
  adjacent to a selected candidate divided by the number of targets. It returns a result
  whenever no weight of a candidate is an \<open>int\<close> of magnitude \<open>2^1023\<close> or more.
\<close>

theorem optimize_sites_coverage_fraction:
  "(target_universe G = {} \<longrightarrow> optimize_sites G = Inr ([], 0))
   \<and> (target_universe G \<noteq> {} \<longrightarrow>
        (\<forall>r. optimize_sites G = Inr r \<longrightarrow>
           fst r = map (\<lambda>n. node_data (node_attrs G n)) (selected_nodes G)
           \<and> snd r = real (card (covered_by G (target_universe G) (selected_nodes G)))
                      / real (card (target_universe G))))
   \<and> ((\<forall>c\<in>set (candidate_list G). weight_in_range (weight (node_attrs G c))) \<longrightarrow>
        (\<exists>r. optimize_sites G = Inr r))"
proof (intro conjI impI allI)
  assume "target_universe G = {}"
  then show "optimize_sites G = Inr ([], 0)"
    by (simp add: optimize_sites_def target_universe_def optimize_loop_empty_universe
        del: set_filter)
next
  fix r
  assume ne: "target_universe G \<noteq> {}" and r: "optimize_sites G = Inr r"
  from r obtain sel cov where l: "optimize_loop G (target_universe G) (candidate_list G) [] {}
                         = Inr (sel, cov)"
    unfolding optimize_sites_def target_universe_def candidate_list_def Let_def
    by (auto split: sum.splits)
  then have sel: "selected_nodes G = sel" by (simp add: selected_nodes_def)
  have "{} = covered_by G (target_universe G) []" by (simp add: covered_by_def)
  from optimize_loop_covered_by[OF this l]
  have cov: "cov = covered_by G (target_universe G) (selected_nodes G)" unfolding sel .
  have os: "optimize_sites G = Inr (map (\<lambda>n. node_data (node_attrs G n)) (selected_nodes G),
          real (card cov) / real (card (target_universe G)))"
    using l ne sel unfolding optimize_sites_def target_universe_def candidate_list_def Let_def
    by simp
  from os r show "fst r = map (\<lambda>n. node_data (node_attrs G n)) (selected_nodes G)"
    by auto
  from os r show "snd r = real (card (covered_by G (target_universe G) (selected_nodes G)))
                / real (card (target_universe G))"
    unfolding cov by auto
next
  assume "\<forall>c\<in>set (candidate_list G). weight_in_range (weight (node_attrs G c))"
  from optimize_loop_returns[OF this, of "target_universe G" "[]" "{}"]
  obtain r where "optimize_loop G (target_universe G) (candidate_list G) [] {} = Inr r" by blast
  then show "\<exists>r. optimize_sites G = Inr r"
    unfolding optimize_sites_def target_universe_def candidate_list_def Let_def
    by (cases r) simp
qed

theorem optimize_sites_coverage_fraction_witness:
  "optimize_sites \<lparr>node_names = [''cand_0''],
                   node_attrs = (\<lambda>n. CandidateNode (PyInt 1) (0::nat)),
                   neighbors = (\<lambda>n. [])\<rparr> = Inr ([], 0)
   \<and> (\<exists>r. optimize_sites example_graph = Inr r
        \<and> fst r = map (\<lambda>n. node_data (node_attrs example_graph n)) (selected_nodes example_graph)
        \<and> snd r = real (card (covered_by example_graph (target_universe example_graph)
                       (selected_nodes example_graph)))
           / real (card (target_universe example_graph)))"
proof -
  let ?E = "\<lparr>node_names = [''cand_0''], node_attrs = (\<lambda>n. CandidateNode (PyInt 1) (0::nat)),
             neighbors = (\<lambda>n. [])\<rparr>"
  have e: "target_universe ?E = {}" by (simp add: target_universe_def is_target_def)
  have n: "target_universe example_graph \<noteq> {}" by (simp add: ex_universe)
  have w: "\<forall>c\<in>set (candidate_list example_graph). weight_in_range (weight (node_attrs example_graph c))"
    unfolding ex_candidates by (simp add: weight_in_range_def)
  from optimize_sites_coverage_fraction[of ?E] e
  have a: "optimize_sites ?E = Inr ([], 0)" by blast
  from optimize_sites_coverage_fraction[of example_graph] n w a
  show ?thesis by blast
qed

section \<open>tile\_manager.py\<close>

text \<open>
  The library \<open>mercantile\<close> is not part of the sources. Its three functions the
  program calls are parameters of the model: \<open>tile_fn lng lat zoom\<close>, \<open>bounds_fn tile\<close>
  and \<open>tiles_fn west south east north zoom\<close>. The parameters are total functions: an
  exception of the library, such as the one \<open>mercantile.tile\<close> raises at the latitudes
  90 and -90, is outside the model.
\<close>

record tile =
  tile_x :: int
  tile_y :: int
  tile_z :: int

record lnglat_bbox =
  west :: real
  south :: real
  east :: real
  north :: real

record mercantile =
  tile_fn :: "real \<Rightarrow> real \<Rightarrow> int \<Rightarrow> tile"
  bounds_fn :: "tile \<Rightarrow> lnglat_bbox"
  tiles_fn :: "real \<Rightarrow> real \<Rightarrow> real \<Rightarrow> real \<Rightarrow> int \<Rightarrow> tile list"

text \<open>
  The data of a tile is a dictionary, as unpacked from the cache or returned by the
  fetch: an association list from keys to lists of samples. The key \<open>tile:z:x:y\<close> of
  the cache is the triple \<open>(z, x, y)\<close>.
\<close>

type_synonym tile_data = "(string \<times> real list) list"

type_synonym tile_key = "int \<times> int \<times> int"

text \<open>The tile manager: the content of the Redis cache and the fixed zoom level.\<close>

record tile_manager =
  redis :: "tile_key \<Rightarrow> tile_data option"
  zoom :: int

text \<open>
  The elevation service is outside the program. What it answers is a parameter of the
  model: \<open>api x y z i\<close> is the outcome of the request for the batch of sample points
  that starts at sample \<open>i\<close> of the tile \<open>(x, y, z)\<close>. Either something inside the
  \<open>try\<close> block raised (the request, the decoding of the answer, the reading of its
  results), or the status code is not 200, or the answer does not have the status
  \<open>OK\<close> and a list of results, or it has them. The entry \<open>elevation\<close> of a result is
  absent, the JSON value \<open>null\<close>, or a number.
\<close>

datatype elevation_field = NoElevation | NullElevation | Elevation real

datatype api_reply =
  RequestRaised
| StatusNot200
| StatusNotOK
| Results "elevation_field list"

text \<open>
  \<open>result.get('elevation', 0.0)\<close>: the default stands in for an absent entry only; the
  value \<open>null\<close> is read as \<open>None\<close>.
\<close>

definition result_elevation :: "elevation_field \<Rightarrow> real option" where
  "result_elevation r =
     (case r of NoElevation \<Rightarrow> Some 0 | NullElevation \<Rightarrow> None | Elevation v \<Rightarrow> Some v)"

text \<open>
  What one batch of \<open>n\<close> sample points adds to \<open>all_elevations\<close>: the elevations of the
  results, however many there are, or \<open>n\<close> zeros on each of the three paths of failure.
\<close>

definition batch_elevations :: "api_reply \<Rightarrow> nat \<Rightarrow> real option list" where
  "batch_elevations reply n =
     (case reply of
        Results results \<Rightarrow> map result_elevation results
      | StatusNotOK \<Rightarrow> replicate n (Some 0)
      | StatusNot200 \<Rightarrow> replicate n (Some 0)
      | RequestRaised \<Rightarrow> replicate n (Some 0))"

text \<open>
  The loop \<open>for i in range(0, len(lat_flat), batch_size)\<close> over the 256 sample points
  in batches of 100: the batch starting at \<open>i\<close> holds the points
  \<open>lat_flat[i:i + batch_size]\<close>.
\<close>

fun fetch_batches ::
  "(nat \<Rightarrow> api_reply) \<Rightarrow> nat list \<Rightarrow> real option list \<Rightarrow> real option list" where
  "fetch_batches reply [] all_elevations = all_elevations"
| "fetch_batches reply (i # rest) all_elevations =
     fetch_batches reply rest
       (all_elevations @ batch_elevations (reply i) (min (i + 100) 256 - i))"

text \<open>
  The method \<open>_fetch_tile_from_api\<close>, named without its leading underscore. With 256
  samples it logs \<open>min(all_elevations)\<close> and \<open>max(all_elevations)\<close> before it returns;
  the comparison of the samples raises \<open>TypeError\<close> when one of them is \<open>None\<close>, and
  the log line is outside the \<open>try\<close> block.
\<close>

definition fetch_tile_from_api ::
  "(int \<Rightarrow> int \<Rightarrow> int \<Rightarrow> nat \<Rightarrow> api_reply) \<Rightarrow> int \<Rightarrow> int \<Rightarrow> int
     \<Rightarrow> py_error + tile_data option" where
  "fetch_tile_from_api api x y z =
     (let all_elevations = fetch_batches (api x y z) [0, 100, 200] []
      in if length all_elevations = 256
         then if None \<in> set all_elevations then Inl TypeError
              else Inr (Some [(''elevation'', map the all_elevations)])
         else Inr None)"

text \<open>Truth value of a dictionary or \<open>None\<close>: false for \<open>None\<close> and for the empty dictionary.\<close>

definition truthy :: "tile_data option \<Rightarrow> bool" where
  "truthy data = (case data of None \<Rightarrow> False | Some d \<Rightarrow> d \<noteq> [])"

text \<open>\<open>get_tile_data\<close> called with a latitude and a longitude, as all callers modelled here do.\<close>

definition get_tile_data ::
  "mercantile \<Rightarrow> (int \<Rightarrow> int \<Rightarrow> int \<Rightarrow> nat \<Rightarrow> api_reply) \<Rightarrow> tile_manager \<Rightarrow> real \<Rightarrow> real
     \<Rightarrow> py_error + tile_data option \<times> tile_manager" where
  "get_tile_data M api tm lat lon =
     (let t = tile_fn M lon lat (zoom tm);
          tile_key = (zoom tm, tile_x t, tile_y t)
      in case redis tm tile_key of
           Some data \<Rightarrow> Inr (Some data, tm)
         | None \<Rightarrow>
             (case fetch_tile_from_api api (tile_x t) (tile_y t) (zoom tm) of
                Inl e \<Rightarrow> Inl e
              | Inr data \<Rightarrow>
                  if truthy data
                  then Inr (data, tm\<lparr>redis := (redis tm)(tile_key := data)\<rparr>)
                  else Inr (data, tm)))"

text \<open>
  Indexing the 16 x 16 array \<open>grid = raw_elev.reshape((16, 16))\<close> as numpy does: an index
  from -16 to -1 counts from the end, any other index outside 0..15 raises
  \<open>IndexError\<close>.
\<close>

definition grid_lookup :: "real list \<Rightarrow> int \<Rightarrow> int \<Rightarrow> py_error + real" where
  "grid_lookup raw_elev row col =
     (if - 16 \<le> row \<and> row < 16 \<and> - 16 \<le> col \<and> col < 16
      then Inr (raw_elev ! nat ((row mod 16) * 16 + col mod 16))
      else Inl IndexError)"

definition clip :: "real \<Rightarrow> real \<Rightarrow> real \<Rightarrow> real" where
  "clip v lo hi = min (max v lo) hi"

text \<open>
  The method \<open>_extract_elevation_from_tile\<close>, named without its leading underscore.
  The four reads of the grid are the only places where it can raise.
\<close>

definition extract_elevation_from_tile ::
  "mercantile \<Rightarrow> tile_data option \<Rightarrow> real \<Rightarrow> real \<Rightarrow> tile \<Rightarrow> py_error + real" where
  "extract_elevation_from_tile M data lat lon t =
     (case data of
        None \<Rightarrow> Inr 0
      | Some d \<Rightarrow>
          if d = [] \<or> map_of d ''elevation'' = None then Inr 0
          else
            (let raw_elev = the (map_of d ''elevation'') in
             if length raw_elev \<noteq> 256 then Inr 0
             else
               (let bounds = bounds_fn M t;
                    lat_min = south bounds; lat_max = north bounds;
                    lon_min = west bounds; lon_max = east bounds
                in if lat_max = lat_min \<or> lon_max = lon_min then Inr 0
                   else
                     (let u0 = (lat - lat_min) / (lat_max - lat_min) * 15;
                          v0 = (lon - lon_min) / (lon_max - lon_min) * 15;
                          u = clip u0 0 15;
                          v = clip v0 0 15;
                          i = \<lfloor>u\<rfloor>;
                          j = \<lfloor>v\<rfloor>;
                          u_ratio = u - of_int i;
                          v_ratio = v - of_int j;
                          i_next = min (i + 1) 15;
                          j_next = min (j + 1) 15
                      in case grid_lookup raw_elev j i of Inl e \<Rightarrow> Inl e | Inr p00 \<Rightarrow>
                         (case grid_lookup raw_elev j i_next of Inl e \<Rightarrow> Inl e | Inr p10 \<Rightarrow>
                         (case grid_lookup raw_elev j_next i of Inl e \<Rightarrow> Inl e | Inr p01 \<Rightarrow>
                         (case grid_lookup raw_elev j_next i_next of Inl e \<Rightarrow> Inl e | Inr p11 \<Rightarrow>
                            (let val_j = (p00 * (1 - u_ratio)) + (p10 * u_ratio);
                                 val_jnext = (p01 * (1 - u_ratio)) + (p11 * u_ratio);
                                 final_elev = (val_j * (1 - v_ratio)) + (val_jnext * v_ratio)
                             in Inr final_elev))))))))"

text \<open>
  \<open>get_elevation\<close> catches nothing: an exception of \<open>get_tile_data\<close> or of the
  extraction is its own.
\<close>

definition get_elevation ::
  "mercantile \<Rightarrow> (int \<Rightarrow> int \<Rightarrow> int \<Rightarrow> nat \<Rightarrow> api_reply) \<Rightarrow> tile_manager \<Rightarrow> real \<Rightarrow> real
     \<Rightarrow> py_error + real \<times> tile_manager" where
  "get_elevation M api tm lat lon =
     (let t = tile_fn M lon lat (zoom tm)
      in case get_tile_data M api tm lat lon of
           Inl e \<Rightarrow> Inl e
         | Inr (data, tm') \<Rightarrow>
             if truthy data
             then (case extract_elevation_from_tile M data lat lon t of
                     Inl e \<Rightarrow> Inl e
                   | Inr result \<Rightarrow> Inr (result, tm'))
             else Inr (0, tm'))"

subsection \<open>The notions of the claim about the elevation lookup\<close>

text \<open>The clamped fractional row or column position of a coordinate within the tile bounds.\<close>

definition frac_index :: "real \<Rightarrow> real \<Rightarrow> real \<Rightarrow> real" where
  "frac_index x lo hi = clip ((x - lo) / (hi - lo) * 15) 0 15"

text \<open>The bilinear interpolation of the four samples around the position \<open>(u, v)\<close>.\<close>

definition bilinear :: "real list \<Rightarrow> real \<Rightarrow> real \<Rightarrow> real" where
  "bilinear raw_elev u v =
     (let i = \<lfloor>u\<rfloor>; j = \<lfloor>v\<rfloor>;
          i_next = min (i + 1) 15; j_next = min (j + 1) 15;
          p00 = raw_elev ! nat (j * 16 + i);
          p10 = raw_elev ! nat (j * 16 + i_next);
          p01 = raw_elev ! nat (j_next * 16 + i);
          p11 = raw_elev ! nat (j_next * 16 + i_next)
      in ((p00 * (1 - (u - of_int i))) + (p10 * (u - of_int i))) * (1 - (v - of_int j))
         + ((p01 * (1 - (u - of_int i))) + (p11 * (u - of_int i))) * (v - of_int j))"

definition well_formed :: "mercantile \<Rightarrow> tile_data option \<Rightarrow> tile \<Rightarrow> bool" where
  "well_formed M data t \<longleftrightarrow>
     (\<exists>d raw. data = Some d \<and> map_of d ''elevation'' = Some raw \<and> length raw = 256)
     \<and> north (bounds_fn M t) \<noteq> south (bounds_fn M t)
     \<and> east (bounds_fn M t) \<noteq> west (bounds_fn M t)"

lemma frac_index_range: "0 \<le> frac_index x lo hi \<and> frac_index x lo hi \<le> 15"
  by (simp add: frac_index_def clip_def)

lemma floor_frac_index_range: "0 \<le> \<lfloor>frac_index x lo hi\<rfloor> \<and> \<lfloor>frac_index x lo hi\<rfloor> \<le> 15"
  using frac_index_range[of x lo hi] by (simp add: floor_le_iff le_floor_iff)

lemma grid_lookup_in_range:
  assumes "0 \<le> row" "row \<le> 15" "0 \<le> col" "col \<le> 15"
  shows "grid_lookup raw row col = Inr (raw ! nat (row * 16 + col))"
  using assms by (simp add: grid_lookup_def)

lemma extract_well_formed:
  assumes "data = Some d" "map_of d ''elevation'' = Some raw" "length raw = 256"
    and "north (bounds_fn M t) \<noteq> south (bounds_fn M t)"
    and "east (bounds_fn M t) \<noteq> west (bounds_fn M t)"
  shows "extract_elevation_from_tile M data lat lon t =
           Inr (bilinear raw (frac_index lat (south (bounds_fn M t)) (north (bounds_fn M t)))
                             (frac_index lon (west (bounds_fn M t)) (east (bounds_fn M t))))"
proof -
  let ?u = "frac_index lat (south (bounds_fn M t)) (north (bounds_fn M t))"
  let ?v = "frac_index lon (west (bounds_fn M t)) (east (bounds_fn M t))"
  have i: "0 \<le> \<lfloor>?u\<rfloor>" "\<lfloor>?u\<rfloor> \<le> 15" using floor_frac_index_range by blast+
  have j: "0 \<le> \<lfloor>?v\<rfloor>" "\<lfloor>?v\<rfloor> \<le> 15" using floor_frac_index_range by blast+
  have i': "0 \<le> min (\<lfloor>?u\<rfloor> + 1) 15" "min (\<lfloor>?u\<rfloor> + 1) 15 \<le> 15" using i by simp_all
  have j': "0 \<le> min (\<lfloor>?v\<rfloor> + 1) 15" "min (\<lfloor>?v\<rfloor> + 1) 15 \<le> 15" using j by simp_all
  have d: "d \<noteq> []" using assms(2) by auto
  show ?thesis
    unfolding extract_elevation_from_tile_def assms(1) option.case Let_def
      frac_index_def[symmetric]
      grid_lookup_in_range[OF j i] grid_lookup_in_range[OF j i'(1,2)]
      grid_lookup_in_range[OF j'(1,2) i] grid_lookup_in_range[OF j'(1,2) i'(1,2)]
    using d assms(2-5) by (simp add: bilinear_def Let_def)
qed

lemma extract_malformed:
  assumes "\<not> well_formed M data t"
  shows "extract_elevation_from_tile M data lat lon t = Inr 0"
proof (cases data)
  case None
  then show ?thesis by (simp add: extract_elevation_from_tile_def)
next
  case (Some d)
  show ?thesis
  proof (cases "map_of d ''elevation''")
    case None
    then show ?thesis using Some by (simp add: extract_elevation_from_tile_def)
  next
    case (Some raw)
    with assms \<open>data = Some d\<close>
    have "length raw \<noteq> 256 \<or> north (bounds_fn M t) = south (bounds_fn M t)
            \<or> east (bounds_fn M t) = west (bounds_fn M t)"
      by (auto simp: well_formed_def)
    then show ?thesis using Some \<open>data = Some d\<close>
      by (auto simp: extract_elevation_from_tile_def Let_def)
  qed
qed

lemma extract_total: "\<exists>v. extract_elevation_from_tile M data lat lon t = Inr v"
proof (cases "well_formed M data t")
  case True
  then obtain d raw where "data = Some d" "map_of d ''elevation'' = Some raw" "length raw = 256"
    and "north (bounds_fn M t) \<noteq> south (bounds_fn M t)"
    and "east (bounds_fn M t) \<noteq> west (bounds_fn M t)"
    by (auto simp: well_formed_def)
  from extract_well_formed[OF this] show ?thesis by blast
next
  case False
  from extract_malformed[OF this] show ?thesis by blast
qed

text \<open>
  The clamping of the extraction: the fractional row and column positions lie in
  \<open>[0, 15]\<close>, the four indices of the interpolation lie in \<open>0..15\<close>, the four grid
  lookups succeed, and the result is the bilinear interpolation of the four samples.
\<close>

lemma extract_elevation_in_bounds:
  assumes "data = Some d" "map_of d ''elevation'' = Some raw" "length raw = 256"
    and "north (bounds_fn M t) \<noteq> south (bounds_fn M t)"
    and "east (bounds_fn M t) \<noteq> west (bounds_fn M t)"
  shows "let u = frac_index lat (south (bounds_fn M t)) (north (bounds_fn M t));
             v = frac_index lon (west (bounds_fn M t)) (east (bounds_fn M t));
             i = \<lfloor>u\<rfloor>; j = \<lfloor>v\<rfloor>; i_next = min (i + 1) 15; j_next = min (j + 1) 15
         in 0 \<le> u \<and> u \<le> 15 \<and> 0 \<le> v \<and> v \<le> 15
            \<and> i \<in> {0..15} \<and> j \<in> {0..15} \<and> i_next \<in> {0..15} \<and> j_next \<in> {0..15}
            \<and> grid_lookup raw j i = Inr (raw ! nat (j * 16 + i))
            \<and> grid_lookup raw j i_next = Inr (raw ! nat (j * 16 + i_next))
            \<and> grid_lookup raw j_next i = Inr (raw ! nat (j_next * 16 + i))
            \<and> grid_lookup raw j_next i_next = Inr (raw ! nat (j_next * 16 + i_next))
            \<and> extract_elevation_from_tile M data lat lon t = Inr (bilinear raw u v)"
proof -
  let ?u = "frac_index lat (south (bounds_fn M t)) (north (bounds_fn M t))"
  let ?v = "frac_index lon (west (bounds_fn M t)) (east (bounds_fn M t))"
  have u: "0 \<le> ?u" "?u \<le> 15" using frac_index_range by blast+
  have v: "0 \<le> ?v" "?v \<le> 15" using frac_index_range by blast+
  have i: "0 \<le> \<lfloor>?u\<rfloor>" "\<lfloor>?u\<rfloor> \<le> 15" using floor_frac_index_range by blast+
  have j: "0 \<le> \<lfloor>?v\<rfloor>" "\<lfloor>?v\<rfloor> \<le> 15" using floor_frac_index_range by blast+
  have i': "0 \<le> min (\<lfloor>?u\<rfloor> + 1) 15" "min (\<lfloor>?u\<rfloor> + 1) 15 \<le> 15" using i by simp_all
  have j': "0 \<le> min (\<lfloor>?v\<rfloor> + 1) 15" "min (\<lfloor>?v\<rfloor> + 1) 15 \<le> 15" using j by simp_all
  have e: "extract_elevation_from_tile M data lat lon t = Inr (bilinear raw ?u ?v)"
    by (rule extract_well_formed[OF assms])
  show ?thesis
    unfolding Let_def
    using u v i j i' j' e
      grid_lookup_in_range[OF j i] grid_lookup_in_range[OF j i'(1,2)]
      grid_lookup_in_range[OF j'(1,2) i] grid_lookup_in_range[OF j'(1,2) i'(1,2)]
    by simp
qed

subsection \<open>Where the elevation lookup raises\<close>

lemma fetch_batches_all:
  "fetch_batches reply [0, 100, 200] []
     = batch_elevations (reply 0) 100 @ batch_elevations (reply 100) 100
       @ batch_elevations (reply 200) 56"
  by simp

lemma fetch_tile_from_api_error:
  assumes "fetch_tile_from_api api x y z = Inl e"
  shows "e = TypeError"
  using assms by (simp add: fetch_tile_from_api_def Let_def split: if_splits)

text \<open>
  The exception of the fetch is the only one of \<open>get_elevation\<close> in the model: when the
  tile is cached, or the fetch returns, \<open>get_elevation\<close> returns.
\<close>

lemma get_elevation_error:
  assumes "get_elevation M api tm lat lon = Inl e"
  shows "e = TypeError
       \<and> redis tm (zoom tm, tile_x (tile_fn M lon lat (zoom tm)),
                   tile_y (tile_fn M lon lat (zoom tm))) = None
       \<and> fetch_tile_from_api api (tile_x (tile_fn M lon lat (zoom tm)))
             (tile_y (tile_fn M lon lat (zoom tm))) (zoom tm) = Inl TypeError"
proof (cases "get_tile_data M api tm lat lon")
  case (Inl e')
  then have e: "e' = e" using assms by (simp add: get_elevation_def Let_def)
  let ?t = "tile_fn M lon lat (zoom tm)"
  from Inl have miss: "redis tm (zoom tm, tile_x ?t, tile_y ?t) = None"
    by (simp add: get_tile_data_def Let_def split: option.splits)
  with Inl have f: "fetch_tile_from_api api (tile_x ?t) (tile_y ?t) (zoom tm) = Inl e'"
    by (simp add: get_tile_data_def Let_def split: sum.splits if_splits)
  from fetch_tile_from_api_error[OF f] f miss e show ?thesis by simp
next
  case (Inr p)
  obtain data tm' where p: "p = (data, tm')" by (cases p)
  obtain v where "extract_elevation_from_tile M data lat lon (tile_fn M lon lat (zoom tm)) = Inr v"
    using extract_total by blast
  then have "\<exists>r. get_elevation M api tm lat lon = Inr r"
    by (simp add: get_elevation_def Let_def Inr p)
  with assms show ?thesis by simp
qed

abbreviation unit_square_mercantile :: mercantile where
  "unit_square_mercantile \<equiv>
     \<lparr>tile_fn = (\<lambda>lng lat z. \<lparr>tile_x = 0, tile_y = 0, tile_z = z\<rparr>),
      bounds_fn = (\<lambda>t. \<lparr>west = 0, south = 0, east = 1, north = 1\<rparr>),
      tiles_fn = (\<lambda>w s e n z. [\<lparr>tile_x = 0, tile_y = 0, tile_z = z\<rparr>])\<rparr>"

abbreviation empty_tile_manager :: tile_manager where
  "empty_tile_manager \<equiv> \<lparr>redis = (\<lambda>k. None), zoom = 12\<rparr>"

text \<open>
  C10. The claim lets \<open>get_elevation\<close> return for every latitude and longitude, with
  0 when the data cannot be supplied. The code does not when the tile is absent from the
  cache and the elevation service answers the three batch requests with 256 results in
  all, of which one has the elevation \<open>null\<close>: the fetch then raises \<open>TypeError\<close> in its
  log line, and \<open>get_elevation\<close> raises it to its caller.
\<close>
theorem get_elevation_null_sample_raises:
  assumes t: "t = tile_fn M lon lat (zoom tm)"
    and miss: "redis tm (zoom tm, tile_x t, tile_y t) = None"
    and r0: "api (tile_x t) (tile_y t) (zoom tm) 0 = Results results0"
    and r1: "api (tile_x t) (tile_y t) (zoom tm) 100 = Results results1"
    and r2: "api (tile_x t) (tile_y t) (zoom tm) 200 = Results results2"
    and count: "length results0 + length results1 + length results2 = 256"
    and null: "NullElevation \<in> set (results0 @ results1 @ results2)"
  shows "get_elevation M api tm lat lon = Inl TypeError"
proof -
  let ?all = "map result_elevation (results0 @ results1 @ results2)"
  have all: "fetch_batches (api (tile_x t) (tile_y t) (zoom tm)) [0, 100, 200] [] = ?all"
    unfolding fetch_batches_all r0 r1 r2 by (simp add: batch_elevations_def)
  have len: "length ?all = 256" using count by simp
  have "result_elevation NullElevation \<in> set ?all"
    using null unfolding set_map by (rule imageI)
  then have none: "None \<in> set ?all" by (simp add: result_elevation_def)
  have f: "fetch_tile_from_api api (tile_x t) (tile_y t) (zoom tm) = Inl TypeError"
    unfolding fetch_tile_from_api_def all Let_def using len none by simp
  have "get_tile_data M api tm lat lon = Inl TypeError"
    unfolding get_tile_data_def t[symmetric] Let_def miss option.case f by simp
  then show ?thesis by (simp add: get_elevation_def Let_def)
qed

theorem get_elevation_null_sample_raises_witness:
  "get_elevation unit_square_mercantile
     (\<lambda>x y z i. Results (replicate (min (i + 100) 256 - i) NullElevation))
     empty_tile_manager 70 25 = Inl TypeError"
proof -
  let ?api = "\<lambda>(x::int) (y::int) (z::int) (i::nat).
                Results (replicate (min (i + 100) 256 - i) NullElevation)"
  let ?t = "\<lparr>tile_x = 0, tile_y = 0, tile_z = 12\<rparr>"
  show ?thesis
  proof (rule get_elevation_null_sample_raises[where t = ?t and api = ?api
        and ?results0.0 = "replicate 100 NullElevation"
        and ?results1.0 = "replicate 100 NullElevation"
        and ?results2.0 = "replicate 56 NullElevation"])
    show "?t = tile_fn unit_square_mercantile 25 70 (zoom empty_tile_manager)" by simp
    show "redis empty_tile_manager (zoom empty_tile_manager, tile_x ?t, tile_y ?t) = None" by simp
    show "?api (tile_x ?t) (tile_y ?t) (zoom empty_tile_manager) 0 = Results (replicate 100 NullElevation)"
      by simp
    show "?api (tile_x ?t) (tile_y ?t) (zoom empty_tile_manager) 100 = Results (replicate 100 NullElevation)"
      by simp
    show "?api (tile_x ?t) (tile_y ?t) (zoom empty_tile_manager) 200 = Results (replicate 56 NullElevation)"
      by simp
    show "length (replicate 100 NullElevation) + length (replicate 100 NullElevation)
            + length (replicate 56 NullElevation) = 256" by simp
    show "NullElevation \<in> set (replicate 100 NullElevation @ replicate 100 NullElevation
                                 @ replicate 56 NullElevation)" by simp
  qed
qed

text \<open>
  When every request fails, the fetch fills in zeros, the tile is cached and the lookup
  returns 0.
\<close>

lemma get_elevation_requests_fail:
  "\<exists>tm'. get_elevation unit_square_mercantile (\<lambda>x y z i. RequestRaised) empty_tile_manager
            (1 / 2) (1 / 2) = Inr (0, tm')"
proof -
  let ?raw = "replicate 256 (0::real)"
  have f: "fetch_tile_from_api (\<lambda>x y z i. RequestRaised) 0 0 12 = Inr (Some [(''elevation'', ?raw)])"
    unfolding fetch_tile_from_api_def fetch_batches_all Let_def
    by (simp add: batch_elevations_def replicate_add[symmetric])
  let ?tm' = "empty_tile_manager\<lparr>redis := (redis empty_tile_manager)
                  ((12, 0, 0) := Some [(''elevation'', ?raw)])\<rparr>"
  have g: "get_tile_data unit_square_mercantile (\<lambda>x y z i. RequestRaised) empty_tile_manager
             (1 / 2) (1 / 2) = Inr (Some [(''elevation'', ?raw)], ?tm')"
    by (simp add: get_tile_data_def Let_def f truthy_def)
  have e: "extract_elevation_from_tile unit_square_mercantile (Some [(''elevation'', ?raw)])
             (1 / 2) (1 / 2) \<lparr>tile_x = 0, tile_y = 0, tile_z = 12\<rparr>
           = Inr (bilinear ?raw (frac_index (1 / 2) 0 1) (frac_index (1 / 2) 0 1))"
    using extract_well_formed[where data = "Some [(''elevation'', ?raw)]"
        and d = "[(''elevation'', ?raw)]" and raw = ?raw and M = unit_square_mercantile
        and t = "\<lparr>tile_x = 0, tile_y = 0, tile_z = 12\<rparr>" and lat = "1 / 2" and lon = "1 / 2"]
    by simp
  have u: "frac_index (1 / 2) 0 1 = 15 / 2" by (simp add: frac_index_def clip_def)
  have fl: "\<lfloor>15 / 2 :: real\<rfloor> = 7" by simp
  have b: "bilinear ?raw (15 / 2) (15 / 2) = 0"
    unfolding bilinear_def Let_def fl by simp
  show ?thesis
    by (simp add: get_elevation_def Let_def g truthy_def e u b)
qed


section \<open>rf\_worker.py: the sieve\<close>

record candidate =
  cand_lat :: real
  cand_lon :: real
  cand_elev :: real
  cand_tile_x :: int
  cand_tile_y :: int

record scored_candidate = candidate +
  score :: real

datatype task_message = NoTilesFound | ExceptionText py_error

datatype task_result = Success (locations: "scored_candidate list") | Error (message: task_message)

definition tile_lat_center :: "mercantile \<Rightarrow> tile \<Rightarrow> real" where
  "tile_lat_center M t = (let b = bounds_fn M t in (south b + north b) / 2)"

definition tile_lon_center :: "mercantile \<Rightarrow> tile \<Rightarrow> real" where
  "tile_lon_center M t = (let b = bounds_fn M t in (west b + east b) / 2)"

text \<open>\<open>elevs[r, c]\<close> of \<open>elevs = np.array(raw).reshape((16, 16))\<close>, for indices from 0 to 15.\<close>

definition elevs_at :: "real list \<Rightarrow> int \<Rightarrow> int \<Rightarrow> real" where
  "elevs_at raw r c = raw ! nat (r * 16 + c)"

text \<open>
  Modelled from the spec: the border handling of \<open>scipy.ndimage.maximum_filter\<close>, which
  is not part of the sources. In the library's default mode the grid is mirrored about
  its edge, so that index -1 reads index 0 and index 16 reads index 15.
\<close>

definition reflect_index :: "int \<Rightarrow> int" where
  "reflect_index i = (if i < 0 then - i - 1 else if 16 \<le> i then 2 * 16 - 1 - i else i)"

text \<open>
  Modelled from the spec: \<open>scipy.ndimage.maximum_filter (elevs, size=3)\<close>, which is not
  part of the sources. The spec describes a sliding-window maximum filter of window size
  3: the value at a cell is the maximum of the 3 x 3 window centred on it.
\<close>

definition maximum_filter :: "real list \<Rightarrow> int \<Rightarrow> int \<Rightarrow> real" where
  "maximum_filter raw r c =
     Max (set (concat (map (\<lambda>dr. map (\<lambda>dc.
            elevs_at raw (reflect_index (r + dr)) (reflect_index (c + dc))) [- 1, 0, 1])
          [- 1, 0, 1])))"

text \<open>\<open>peaks_mask = (elevs == local_max)\<close>, at the cell \<open>(r, c)\<close>.\<close>

definition peaks_mask :: "real list \<Rightarrow> int \<Rightarrow> int \<Rightarrow> bool" where
  "peaks_mask raw r c \<longleftrightarrow> elevs_at raw r c = maximum_filter raw r c"

text \<open>\<open>np.argwhere(peaks_mask)\<close>: the flagged cells in row-major order.\<close>

definition peak_indices :: "real list \<Rightarrow> (int \<times> int) list" where
  "peak_indices raw =
     concat (map (\<lambda>r. map (\<lambda>c. (r, c)) (filter (\<lambda>c. peaks_mask raw r c) [0..15])) [0..15])"

text \<open>
  The position of cell \<open>(r, c)\<close>: \<open>lat_grid[r, c]\<close> and \<open>lon_grid[r, c]\<close> of
  \<open>np.meshgrid(lats, lons)\<close>, that is \<open>lats[c]\<close> and \<open>lons[r]\<close>.
\<close>

definition cell_position :: "lnglat_bbox \<Rightarrow> int \<Rightarrow> int \<Rightarrow> real \<times> real" where
  "cell_position t_bounds r c =
     (let grid_size = 16;
          lats = linspace (south t_bounds) (north t_bounds) grid_size;
          lons = linspace (west t_bounds) (east t_bounds) grid_size
      in (lats ! nat c, lons ! nat r))"

definition tile_candidates ::
  "mercantile \<Rightarrow> real \<Rightarrow> real \<Rightarrow> real \<Rightarrow> real \<Rightarrow> tile \<Rightarrow> real list \<Rightarrow> candidate list" where
  "tile_candidates M min_lat min_lon max_lat max_lon t raw =
     (let t_bounds = bounds_fn M t
      in concat (map (\<lambda>(r, c).
           (let (p_lat, p_lon) = cell_position t_bounds r c;
                p_elev = elevs_at raw r c
            in if min_lat \<le> p_lat \<and> p_lat \<le> max_lat \<and> min_lon \<le> p_lon \<and> p_lon \<le> max_lon
               then [\<lparr>cand_lat = p_lat, cand_lon = p_lon, cand_elev = p_elev,
                      cand_tile_x = tile_x t, cand_tile_y = tile_y t\<rparr>]
               else []))
         (peak_indices raw)))"

text \<open>
  The loop over the tiles. \<open>reshape((16, 16))\<close> raises \<open>ValueError\<close> unless the list has
  256 samples; this exception, or one of \<open>get_tile_data\<close>, leaves the loop.
\<close>

fun scan_tiles ::
  "mercantile \<Rightarrow> (int \<Rightarrow> int \<Rightarrow> int \<Rightarrow> nat \<Rightarrow> api_reply) \<Rightarrow> real \<Rightarrow> real \<Rightarrow> real \<Rightarrow> real
     \<Rightarrow> tile list \<Rightarrow> tile_manager \<Rightarrow> candidate list
     \<Rightarrow> py_error + (candidate list \<times> tile_manager)" where
  "scan_tiles M api min_lat min_lon max_lat max_lon [] tm all_candidates =
     Inr (all_candidates, tm)"
| "scan_tiles M api min_lat min_lon max_lat max_lon (t # rest) tm all_candidates =
     (case get_tile_data M api tm (tile_lat_center M t) (tile_lon_center M t) of
        Inl e \<Rightarrow> Inl e
      | Inr (data, tm1) \<Rightarrow>
          (let bounds = bounds_fn M t;
               c_lat = (south bounds + north bounds) / 2;
               c_lon = (west bounds + east bounds) / 2
           in case get_tile_data M api tm1 c_lat c_lon of
                Inl e \<Rightarrow> Inl e
              | Inr (raw_data, tm2) \<Rightarrow>
                  if \<not> truthy raw_data \<or> map_of (the raw_data) ''elevation'' = None
                  then scan_tiles M api min_lat min_lon max_lat max_lon rest tm2 all_candidates
                  else
                    (let raw = the (map_of (the raw_data) ''elevation'')
                     in if length raw \<noteq> 16 * 16 then Inl ValueError
                        else scan_tiles M api min_lat min_lon max_lat max_lon rest tm2
                               (all_candidates
                                  @ tile_candidates M min_lat min_lon max_lat max_lon t raw))))"

text \<open>
  \<open>list.sort(key, reverse=True)\<close> is a stable sort into descending order of the key.
\<close>

definition sort_descending :: "('a \<Rightarrow> real) \<Rightarrow> 'a list \<Rightarrow> 'a list" where
  "sort_descending key xs = sort_key (\<lambda>x. - key x) xs"

definition optimize_location_task ::
  "mercantile \<Rightarrow> (int \<Rightarrow> int \<Rightarrow> int \<Rightarrow> nat \<Rightarrow> api_reply) \<Rightarrow> tile_manager
     \<Rightarrow> real \<Rightarrow> real \<Rightarrow> real \<Rightarrow> real \<Rightarrow> real \<Rightarrow> real \<Rightarrow> task_result" where
  "optimize_location_task M api tm min_lat min_lon max_lat max_lon freq_mhz height_m =
     (let tiles = tiles_fn M min_lon min_lat max_lon max_lat (zoom tm)
      in if tiles = [] then Error NoTilesFound
         else
           (case scan_tiles M api min_lat min_lon max_lat max_lon tiles tm [] of
              Inl e \<Rightarrow> Error (ExceptionText e)
            | Inr (all_candidates, tm') \<Rightarrow>
                (let sorted_candidates = sort_descending cand_elev all_candidates;
                     top_candidates = take 20 sorted_candidates;
                     scored_candidates =
                       map (\<lambda>cand. candidate.extend cand
                              (scored_candidate.fields (cand_elev cand * 1))) top_candidates;
                     scored_sorted = sort_descending score scored_candidates
                 in Success (take 3 scored_sorted))))"

subsection \<open>The single-peak scenario\<close>

text \<open>The grid of the scenario: zero everywhere except the value 100 at row 8, column 8.\<close>

definition single_peak_grid :: "real list" where
  "single_peak_grid = (replicate 256 0)[8 * 16 + 8 := 100]"

lemma elevs_at_single_peak:
  assumes "0 \<le> r" "r \<le> 15" "0 \<le> c" "c \<le> 15"
  shows "elevs_at single_peak_grid r c = (if r = 8 \<and> c = 8 then 100 else 0)"
proof -
  have n: "nat (r * 16 + c) < 256" using assms by simp
  have "r * 16 + c = 136 \<longleftrightarrow> r = 8 \<and> c = 8" using assms by arith
  moreover have "nat (r * 16 + c) = 136 \<longleftrightarrow> r * 16 + c = 136" using assms by arith
  ultimately have e: "nat (r * 16 + c) = 136 \<longleftrightarrow> r = 8 \<and> c = 8" by simp
  show ?thesis
    unfolding elevs_at_def single_peak_grid_def using n e by (auto simp: nth_list_update)
qed

lemma reflect_index_range:
  assumes "0 \<le> r" "r \<le> 15" "d \<in> {- 1, 0, 1}"
  shows "0 \<le> reflect_index (r + d)" "reflect_index (r + d) \<le> 15"
    "reflect_index (r + d) = 8 \<longleftrightarrow> r + d = 8"
  using assms by (auto simp: reflect_index_def)

lemma Max_two_valued:
  fixes S :: "real set"
  assumes "finite S" "S \<noteq> {}" "S \<subseteq> {0, 100}"
  shows "Max S = (if 100 \<in> S then 100 else 0)"
proof (cases "100 \<in> S")
  case True
  have "Max S = 100" using assms True by (intro Max_eqI) auto
  with True show ?thesis by simp
next
  case False
  then have "S = {0}" using assms by auto
  with False show ?thesis by simp
qed

lemma window_set:
  "set (concat (map (\<lambda>dr. map (\<lambda>dc. f dr dc) [- 1, 0, 1]) [- 1, 0, 1 :: int]))
     = {f dr dc | dr dc. dr \<in> {- 1, 0, 1} \<and> dc \<in> {- 1, 0, 1 :: int}}"
  by auto

lemma maximum_filter_single_peak:
  assumes "0 \<le> r" "r \<le> 15" "0 \<le> c" "c \<le> 15"
  shows "maximum_filter single_peak_grid r c
           = (if 7 \<le> r \<and> r \<le> 9 \<and> 7 \<le> c \<and> c \<le> 9 then 100 else 0)"
proof -
  let ?f = "\<lambda>dr dc. elevs_at single_peak_grid (reflect_index (r + dr)) (reflect_index (c + dc))"
  let ?S = "{?f dr dc | dr dc. dr \<in> {- 1, 0, 1} \<and> dc \<in> {- 1, 0, 1 :: int}}"
  have val: "?f dr dc = (if r + dr = 8 \<and> c + dc = 8 then 100 else 0)"
    if "dr \<in> {- 1, 0, 1}" "dc \<in> {- 1, 0, 1}" for dr dc
    using reflect_index_range[OF assms(1,2) that(1)] reflect_index_range[OF assms(3,4) that(2)]
    by (simp add: elevs_at_single_peak)
  have fin: "finite ?S"
    unfolding window_set[symmetric] by (rule finite_set)
  have "?f 0 0 \<in> ?S" by blast
  then have ne: "?S \<noteq> {}" by blast
  have sub: "?S \<subseteq> {0, 100}"
  proof
    fix x assume "x \<in> ?S"
    then obtain dr dc where "dr \<in> {- 1, 0, 1}" "dc \<in> {- 1, 0, 1}" "x = ?f dr dc" by blast
    then show "x \<in> {0, 100}" using val[of dr dc] by (simp split: if_splits)
  qed
  have mem: "100 \<in> ?S \<longleftrightarrow> 7 \<le> r \<and> r \<le> 9 \<and> 7 \<le> c \<and> c \<le> 9"
  proof
    assume "100 \<in> ?S"
    then obtain dr dc where d: "dr \<in> {- 1, 0, 1}" "dc \<in> {- 1, 0, 1}" and x: "100 = ?f dr dc"
      by blast
    from x val[OF d] have "r + dr = 8 \<and> c + dc = 8" by (simp split: if_splits)
    with d show "7 \<le> r \<and> r \<le> 9 \<and> 7 \<le> c \<and> c \<le> 9" by auto
  next
    assume w: "7 \<le> r \<and> r \<le> 9 \<and> 7 \<le> c \<and> c \<le> 9"
    then have d: "8 - r \<in> {- 1, 0, 1}" "8 - c \<in> {- 1, 0, 1}" by auto
    have "?f (8 - r) (8 - c) = 100" using val[OF d] by simp
    then have "100 = ?f (8 - r) (8 - c)" by simp
    with d show "100 \<in> ?S" by blast
  qed
  show ?thesis
    unfolding maximum_filter_def window_set Max_two_valued[OF fin ne sub] mem ..
qed

lemma peaks_mask_single_peak:
  assumes "0 \<le> r" "r \<le> 15" "0 \<le> c" "c \<le> 15"
  shows "peaks_mask single_peak_grid r c
           \<longleftrightarrow> (r = 8 \<and> c = 8) \<or> \<not> (7 \<le> r \<and> r \<le> 9 \<and> 7 \<le> c \<and> c \<le> 9)"
  unfolding peaks_mask_def elevs_at_single_peak[OF assms] maximum_filter_single_peak[OF assms]
  by auto

lemma peak_indices_iff:
  "(r, c) \<in> set (peak_indices raw) \<longleftrightarrow> 0 \<le> r \<and> r \<le> 15 \<and> 0 \<le> c \<and> c \<le> 15 \<and> peaks_mask raw r c"
proof -
  have "set (peak_indices raw) = (\<Union>r\<in>{0..15}. (\<lambda>c. (r, c)) ` {c \<in> {0..15}. peaks_mask raw r c})"
    unfolding peak_indices_def set_concat set_map set_filter set_upto image_image ..
  then show ?thesis by auto
qed

lemma nth_linspace:
  assumes "i < n" "1 < n"
  shows "linspace a b n ! i = a + real i * ((b - a) / real (n - 1))"
  using assms by (simp add: linspace_def)

lemma cell_position_inside:
  assumes "south b \<le> north b" "west b \<le> east b" "0 \<le> r" "r \<le> 15" "0 \<le> c" "c \<le> 15"
  shows "south b \<le> fst (cell_position b r c)" "fst (cell_position b r c) \<le> north b"
    "west b \<le> snd (cell_position b r c)" "snd (cell_position b r c) \<le> east b"
proof -
  have c: "nat c < 16" "real (nat c) \<le> 15" "0 \<le> real (nat c)" using assms by auto
  have r: "nat r < 16" "real (nat r) \<le> 15" "0 \<le> real (nat r)" using assms by auto
  have lat: "fst (cell_position b r c) = south b + real (nat c) * ((north b - south b) / 15)"
    using c by (simp add: cell_position_def Let_def nth_linspace)
  have lon: "snd (cell_position b r c) = west b + real (nat r) * ((east b - west b) / 15)"
    using r by (simp add: cell_position_def Let_def nth_linspace)
  have mono: "0 \<le> k * (w / 15) \<and> k * (w / 15) \<le> w" if "0 \<le> k" "k \<le> 15" "0 \<le> w" for k w :: real
  proof
    show "0 \<le> k * (w / 15)" using that by simp
    have "k * (w / 15) \<le> 15 * (w / 15)" using that by (intro mult_right_mono) auto
    then show "k * (w / 15) \<le> w" by simp
  qed
  have nw: "0 \<le> north b - south b" "0 \<le> east b - west b" using assms by auto
  show "south b \<le> fst (cell_position b r c)" unfolding lat using mono[OF c(3,2) nw(1)] by linarith
  show "fst (cell_position b r c) \<le> north b" unfolding lat using mono[OF c(3,2) nw(1)] by linarith
  show "west b \<le> snd (cell_position b r c)" unfolding lon using mono[OF r(3,2) nw(2)] by linarith
  show "snd (cell_position b r c) \<le> east b" unfolding lon using mono[OF r(3,2) nw(2)] by linarith
qed

lemma upto_0_15: "[0..15::int] = [0, 1, 2, 3, 4, 5, 6, 7, 8, 9, 10, 11, 12, 13, 14, 15]"
  by code_simp

lemma length_peak_indices_single_peak: "length (peak_indices single_peak_grid) = 248"
  unfolding peak_indices_def upto_0_15
  by (simp add: peaks_mask_single_peak)

text \<open>
  C8 (as amended). On the 16 x 16 grid that is zero except for the value 100 at row 8,
  column 8, the maximum filter of window size 3 flags the peak cell and every zero cell
  whose window does not contain the peak, that is every cell except the eight neighbours
  of the peak, 248 cells in all; the peak is the only flagged cell of positive elevation; and the position
  mapped to the peak cell lies inside the tile's bounding rectangle (whose south is at
  most its north and whose west is at most its east).
\<close>
theorem single_peak_local_maxima:
  "(\<forall>r c. (r, c) \<in> set (peak_indices single_peak_grid)
        \<longleftrightarrow> 0 \<le> r \<and> r \<le> 15 \<and> 0 \<le> c \<and> c \<le> 15
            \<and> ((r = 8 \<and> c = 8) \<or> \<not> (7 \<le> r \<and> r \<le> 9 \<and> 7 \<le> c \<and> c \<le> 9)))
   \<and> length (peak_indices single_peak_grid) = 248
   \<and> (\<forall>r c. (r, c) \<in> set (peak_indices single_peak_grid) \<and> 0 < elevs_at single_peak_grid r c
        \<longrightarrow> r = 8 \<and> c = 8)
   \<and> (south b \<le> north b \<and> west b \<le> east b
        \<longrightarrow> south b \<le> fst (cell_position b 8 8) \<and> fst (cell_position b 8 8) \<le> north b
          \<and> west b \<le> snd (cell_position b 8 8) \<and> snd (cell_position b 8 8) \<le> east b)"
proof (intro conjI allI impI)
  fix r c
  show "(r, c) \<in> set (peak_indices single_peak_grid)
        \<longleftrightarrow> 0 \<le> r \<and> r \<le> 15 \<and> 0 \<le> c \<and> c \<le> 15
            \<and> ((r = 8 \<and> c = 8) \<or> \<not> (7 \<le> r \<and> r \<le> 9 \<and> 7 \<le> c \<and> c \<le> 9))"
    unfolding peak_indices_iff using peaks_mask_single_peak[of r c] by blast
next
  show "length (peak_indices single_peak_grid) = 248"
    by (rule length_peak_indices_single_peak)
next
  fix r c
  assume a: "(r, c) \<in> set (peak_indices single_peak_grid) \<and> 0 < elevs_at single_peak_grid r c"
  then have rng: "0 \<le> r" "r \<le> 15" "0 \<le> c" "c \<le> 15" by (simp_all add: peak_indices_iff)
  from a elevs_at_single_peak[OF rng] show "r = 8" "c = 8" by (simp_all split: if_splits)
next
  assume b: "south b \<le> north b \<and> west b \<le> east b"
  then have s: "south b \<le> north b" and w: "west b \<le> east b" by simp_all
  show "south b \<le> fst (cell_position b 8 8)" by (rule cell_position_inside(1)[OF s w]) simp_all
  show "fst (cell_position b 8 8) \<le> north b" by (rule cell_position_inside(2)[OF s w]) simp_all
  show "west b \<le> snd (cell_position b 8 8)" by (rule cell_position_inside(3)[OF s w]) simp_all
  show "snd (cell_position b 8 8) \<le> east b" by (rule cell_position_inside(4)[OF s w]) simp_all
qed

theorem single_peak_local_maxima_witness:
  "(8, 8) \<in> set (peak_indices single_peak_grid)
   \<and> (7, 8) \<notin> set (peak_indices single_peak_grid)
   \<and> (3, 12) \<in> set (peak_indices single_peak_grid)
   \<and> 45 \<le> fst (cell_position \<lparr>west = 10, south = 45, east = 11, north = 46\<rparr> 8 8)
   \<and> fst (cell_position \<lparr>west = 10, south = 45, east = 11, north = 46\<rparr> 8 8) \<le> 46
   \<and> 10 \<le> snd (cell_position \<lparr>west = 10, south = 45, east = 11, north = 46\<rparr> 8 8)
   \<and> snd (cell_position \<lparr>west = 10, south = 45, east = 11, north = 46\<rparr> 8 8) \<le> 11"
proof -
  let ?b = "\<lparr>west = 10, south = 45, east = 11, north = 46\<rparr>"
  note t = single_peak_local_maxima[of ?b]
  note cells = t[THEN conjunct1, rule_format]
  note inside = t[THEN conjunct2, THEN conjunct2, THEN conjunct2, rule_format]
  have h: "south ?b \<le> north ?b \<and> west ?b \<le> east ?b" by simp
  have a: "(8, 8) \<in> set (peak_indices single_peak_grid)" unfolding cells[of 8 8] by simp
  have b: "(7, 8) \<notin> set (peak_indices single_peak_grid)" unfolding cells[of 7 8] by simp
  have c: "(3, 12) \<in> set (peak_indices single_peak_grid)" unfolding cells[of 3 12] by simp
  from inside[OF h] a b c show ?thesis by simp
qed

text \<open>
  C8 as stated fails: the cell at row 3, column 3 has the value 0 and the maximum of its
  window, which lies inside the grid, is 0 as well, so it is flagged although it is not
  the peak.
\<close>
theorem single_peak_counterexample:
  "(3, 3) \<in> set (peak_indices single_peak_grid)
   \<and> elevs_at single_peak_grid 3 3 = 0
   \<and> maximum_filter single_peak_grid 3 3 = 0
   \<and> peak_indices single_peak_grid \<noteq> [(8, 8)]"
proof -
  have m: "peaks_mask single_peak_grid 3 3" by (simp add: peaks_mask_single_peak)
  then have i: "(3, 3) \<in> set (peak_indices single_peak_grid)" by (simp add: peak_indices_iff)
  then have "peak_indices single_peak_grid \<noteq> [(8, 8)]" by auto
  with i show ?thesis by (simp add: elevs_at_single_peak maximum_filter_single_peak)
qed

subsection \<open>Tiles without data and malformed tiles\<close>

lemma get_tile_data_cached:
  assumes "redis tm (zoom tm, tile_x (tile_fn M lon lat (zoom tm)), tile_y (tile_fn M lon lat (zoom tm))) = Some d"
  shows "get_tile_data M api tm lat lon = Inr (Some d, tm)"
  using assms by (simp add: get_tile_data_def Let_def)

lemma optimize_location_task_no_tiles:
  assumes "tiles_fn M min_lon min_lat max_lon max_lat (zoom tm) = []"
  shows "optimize_location_task M api tm min_lat min_lon max_lat max_lon freq_mhz height_m
           = Error NoTilesFound"
  using assms by (simp add: optimize_location_task_def)

lemma scan_tiles_absent:
  assumes "get_tile_data M api tm (tile_lat_center M t) (tile_lon_center M t) = Inr (data, tm1)"
    and "get_tile_data M api tm1 (tile_lat_center M t) (tile_lon_center M t) = Inr (raw_data, tm2)"
    and "\<not> truthy raw_data \<or> map_of (the raw_data) ''elevation'' = None"
  shows "scan_tiles M api min_lat min_lon max_lat max_lon (t # rest) tm acc
           = scan_tiles M api min_lat min_lon max_lat max_lon rest tm2 acc"
proof -
  have c: "(south (bounds_fn M t) + north (bounds_fn M t)) / 2 = tile_lat_center M t"
    "(west (bounds_fn M t) + east (bounds_fn M t)) / 2 = tile_lon_center M t"
    by (simp_all add: tile_lat_center_def tile_lon_center_def Let_def)
  show ?thesis
    unfolding scan_tiles.simps Let_def c assms(1) sum.case prod.case assms(2)
    using assms(3) by (simp only: if_True)
qed

text \<open>
  C9. The claim lets a tile with malformed data contribute no candidates while the scan
  continues. The code does so only for a tile without data or without the elevation key:
  when the first tile's cached elevation list has a sample count other than 256, the
  reshape raises, the scan of the remaining tiles is abandoned and the whole task
  returns the error result of the exception.
\<close>
theorem malformed_tile_aborts_scan:
  assumes tiles: "tiles_fn M min_lon min_lat max_lon max_lat (zoom tm) = t # rest"
    and cached: "redis tm (zoom tm,
                   tile_x (tile_fn M (tile_lon_center M t) (tile_lat_center M t) (zoom tm)),
                   tile_y (tile_fn M (tile_lon_center M t) (tile_lat_center M t) (zoom tm)))
                 = Some d"
    and elev: "map_of d ''elevation'' = Some raw"
    and count: "length raw \<noteq> 256"
  shows "optimize_location_task M api tm min_lat min_lon max_lat max_lon freq_mhz height_m
           = Error (ExceptionText ValueError)"
proof -
  have c: "(south (bounds_fn M t) + north (bounds_fn M t)) / 2 = tile_lat_center M t"
    "(west (bounds_fn M t) + east (bounds_fn M t)) / 2 = tile_lon_center M t"
    by (simp_all add: tile_lat_center_def tile_lon_center_def Let_def)
  have g: "get_tile_data M api tm (tile_lat_center M t) (tile_lon_center M t) = Inr (Some d, tm)"
    by (rule get_tile_data_cached[OF cached])
  have d: "d \<noteq> []" using elev by auto
  have "scan_tiles M api min_lat min_lon max_lat max_lon (t # rest) tm [] = Inl ValueError"
    unfolding scan_tiles.simps Let_def c g sum.case prod.case
    using d elev count by (simp add: truthy_def)
  then show ?thesis
    by (simp add: optimize_location_task_def tiles)
qed

abbreviation two_tile_mercantile :: mercantile where
  "two_tile_mercantile \<equiv>
     \<lparr>tile_fn = (\<lambda>lng lat z. \<lparr>tile_x = (if lng < 1 then 0 else 1), tile_y = 0, tile_z = z\<rparr>),
      bounds_fn = (\<lambda>t. \<lparr>west = of_int (tile_x t), south = 0,
                         east = of_int (tile_x t) + 1, north = 1\<rparr>),
      tiles_fn = (\<lambda>w s e n z. [\<lparr>tile_x = 0, tile_y = 0, tile_z = z\<rparr>,
                                \<lparr>tile_x = 1, tile_y = 0, tile_z = z\<rparr>])\<rparr>"

theorem malformed_tile_aborts_scan_witness:
  "optimize_location_task two_tile_mercantile (\<lambda>x y z i. RequestRaised)
     \<lparr>redis = (\<lambda>k. if k = (12, 0, 0) then Some [(''elevation'', [1, 2])]
                    else if k = (12, 1, 0) then Some [(''elevation'', single_peak_grid)]
                    else None),
      zoom = 12\<rparr>
     0 0 1 2 915 10
   = Error (ExceptionText ValueError)"
proof -
  let ?tm = "\<lparr>redis = (\<lambda>k. if k = (12, 0, 0) then Some [(''elevation'', [1, 2])]
                    else if k = (12::int, 1::int, 0::int) then Some [(''elevation'', single_peak_grid)]
                    else None),
             zoom = 12\<rparr>"
  let ?t = "\<lparr>tile_x = 0, tile_y = 0, tile_z = 12\<rparr>"
  have tiles: "tiles_fn two_tile_mercantile 0 0 2 1 (zoom ?tm)
                 = ?t # [\<lparr>tile_x = 1, tile_y = 0, tile_z = 12\<rparr>]" by simp
  have cached: "redis ?tm (zoom ?tm,
                   tile_x (tile_fn two_tile_mercantile (tile_lon_center two_tile_mercantile ?t)
                             (tile_lat_center two_tile_mercantile ?t) (zoom ?tm)),
                   tile_y (tile_fn two_tile_mercantile (tile_lon_center two_tile_mercantile ?t)
                             (tile_lat_center two_tile_mercantile ?t) (zoom ?tm)))
                 = Some [(''elevation'', [1, 2])]"
    by (simp add: tile_lon_center_def tile_lat_center_def)
  have elev: "map_of [(''elevation'', [1, 2 :: real])] ''elevation'' = Some [1, 2]" by simp
  have count: "length [1, 2 :: real] \<noteq> 256" by simp
  show ?thesis
    by (rule malformed_tile_aborts_scan[OF tiles cached elev count])
qed

end
